theory Spec2Isabelle
  imports Complex_Main
begin

section \<open>Data model (shared/schema.ts)\<close>

text \<open>
  The ledger of the token marketplace: the in-memory store \<open>MemStorage\<close> (server/storage.ts)
  and the trading, staking and achievement handlers (server/routes.ts).

  Conventions of the embedding.
  \<^item> Ids, amounts and counters are JavaScript numbers holding integers: \<open>int\<close>.
    A request field is "missing" (\<open>!x\<close>) exactly when it is \<open>0\<close>.
  \<^item> Prices (\<open>numeric\<close> columns, decimal strings read with \<open>Number\<close>) are the exact
    rationals the decimals denote; products, quotients and sums of doubles are taken
    exactly.
  \<^item> A \<open>Date\<close> is its number of milliseconds since the epoch; every \<open>new Date()\<close> of one
    call reads the same clock value \<open>now\<close>, which is a parameter of the call.
  \<^item> \<open>null\<close> and \<open>undefined\<close> are both \<open>None\<close>.
  \<^item> A JavaScript \<open>Map\<close> is an association list in insertion order; \<open>Map.set\<close> on a
    present key replaces the value in place, on an absent key appends.
  \<^item> A thrown \<open>Error\<close> is a value of the type \<open>error\<close>, which keeps the data of the
    message instead of its text.
\<close>

type_synonym ident = int
type_synonym time = int

record user =
  u_id :: ident
  username :: string
  password :: string
  email :: string

record player =
  p_id :: ident
  p_name :: string
  sport :: string
  tokenPrice :: rat
  totalSupply :: int
  availableSupply :: int

record tokenHolding =
  h_id :: ident
  h_userId :: ident
  h_playerId :: ident
  amount :: int
  purchasePrice :: rat
  isStaked :: bool
  stakingPlan :: "string option"
  stakingStart :: "time option"
  stakingEnd :: "time option"

record transaction =
  t_id :: ident
  t_userId :: ident
  t_playerId :: ident
  t_type :: string
  t_amount :: int
  t_price :: rat
  t_timestamp :: "time option"
  fromPlayerId :: "ident option"

record portfolioHistory =
  ph_id :: ident
  ph_userId :: ident
  ph_totalValue :: rat
  ph_timestamp :: "time option"

record stakingPlan' =
  sp_id :: ident
  sp_name :: string
  apy :: rat
  lockPeriodDays :: int
  minTokens :: int

record achievement =
  a_id :: ident
  a_name :: string
  requirement :: string
  requirementValue :: int
  rewardAmount :: int
  category :: string

record userAchievement =
  ua_id :: ident
  ua_userId :: ident
  ua_achievementId :: ident
  completed :: bool
  progress :: int
  completedAt :: "time option"
  createdAt :: "time option"

record portfolio =
  totalValue :: rat
  nbaTokens :: int
  nflTokens :: int
  stakedTokens :: int
  tokens :: "(tokenHolding \<times> player) list"
  pf_transactions :: "(transaction \<times> player \<times> player option) list"
  history :: "portfolioHistory list"

datatype error =
    PlayerNotFound ident
  | TokenHoldingNotFound ident
  | HoldingNotFoundFor ident ident
  | StakingPlanNotFound ident
  | NotEnoughTokens int int
  | BelowMinimum int
  | NotStaked
  | StakingPeriodNotOver
  | AchievementNotFound ident

section \<open>The store (class MemStorage)\<close>

record store =
  users :: "(ident \<times> user) list"
  players :: "(ident \<times> player) list"
  tokenHoldings :: "(ident \<times> tokenHolding) list"
  transactions :: "(ident \<times> transaction) list"
  portfolioHistoryMap :: "(ident \<times> portfolioHistory) list"
  stakingPlans :: "(ident \<times> stakingPlan') list"
  achievements :: "(ident \<times> achievement) list"
  userAchievements :: "(ident \<times> userAchievement) list"
  tokenHoldingIdCounter :: ident
  transactionIdCounter :: ident
  portfolioHistoryIdCounter :: ident
  userAchievementIdCounter :: ident

text \<open>\<open>Map.set\<close>: the first binding of the key is replaced where it stands, a new key goes
  to the end.\<close>

fun map_set :: "'k \<Rightarrow> 'v \<Rightarrow> ('k \<times> 'v) list \<Rightarrow> ('k \<times> 'v) list" where
  "map_set k v [] = [(k, v)]"
| "map_set k v ((k', v') # m) = (if k' = k then (k, v) # m else (k', v') # map_set k v m)"

text \<open>\<open>Map.get\<close> is \<open>map_of\<close>; \<open>Array.from(m.values())\<close>:\<close>

definition map_values :: "('k \<times> 'v) list \<Rightarrow> 'v list" where
  "map_values m = map snd m"

subsection \<open>Users and players\<close>

definition getUser :: "store \<Rightarrow> ident \<Rightarrow> user option" where
  "getUser s i = map_of (users s) i"

definition getPlayer :: "store \<Rightarrow> ident \<Rightarrow> player option" where
  "getPlayer s i = map_of (players s) i"

subsection \<open>Token holdings\<close>

text \<open>\<open>Promise.all\<close> over the holdings: the join with the player, failing at the first
  holding whose player is absent.\<close>

fun withPlayer :: "store \<Rightarrow> tokenHolding list \<Rightarrow> error + (tokenHolding \<times> player) list" where
  "withPlayer s [] = Inr []"
| "withPlayer s (holding # hs) =
     (case getPlayer s (h_playerId holding) of
        None \<Rightarrow> Inl (PlayerNotFound (h_playerId holding))
      | Some pl \<Rightarrow>
          (case withPlayer s hs of
             Inl e \<Rightarrow> Inl e
           | Inr r \<Rightarrow> Inr ((holding, pl) # r)))"

definition userHoldings :: "store \<Rightarrow> ident \<Rightarrow> tokenHolding list" where
  "userHoldings s userId = filter (\<lambda>holding. h_userId holding = userId) (map_values (tokenHoldings s))"

definition getUserTokens :: "store \<Rightarrow> ident \<Rightarrow> error + (tokenHolding \<times> player) list" where
  "getUserTokens s userId = withPlayer s (userHoldings s userId)"

definition getTokenHolding :: "store \<Rightarrow> ident \<Rightarrow> ident \<Rightarrow> tokenHolding option" where
  "getTokenHolding s userId playerId =
     find (\<lambda>holding. h_userId holding = userId \<and> h_playerId holding = playerId)
       (map_values (tokenHoldings s))"

text \<open>The insert record of \<open>createTokenHolding\<close>: the fields the callers pass; the staking
  fields are absent in every call of the repository except \<open>isStaked: false\<close>, so
  \<open>x || false\<close> and \<open>x || null\<close> give \<open>False\<close> and \<open>None\<close>.\<close>

definition createTokenHolding ::
  "store \<Rightarrow> ident \<Rightarrow> ident \<Rightarrow> int \<Rightarrow> rat \<Rightarrow> tokenHolding \<times> store" where
  "createTokenHolding s userId playerId amt price =
     (let i = tokenHoldingIdCounter s;
          holding = \<lparr>h_id = i, h_userId = userId, h_playerId = playerId, amount = amt,
                     purchasePrice = price, isStaked = False, stakingPlan = None,
                     stakingStart = None, stakingEnd = None\<rparr>
      in (holding, s\<lparr>tokenHoldingIdCounter := i + 1,
                      tokenHoldings := map_set i holding (tokenHoldings s)\<rparr>))"

text \<open>\<open>updates: Partial<TokenHolding>\<close> merged by \<open>{ ...holding, ...updates }\<close> is a function
  on the record. The throw comes before any write.\<close>

definition updateTokenHolding ::
  "store \<Rightarrow> ident \<Rightarrow> (tokenHolding \<Rightarrow> tokenHolding) \<Rightarrow> error + tokenHolding \<times> store" where
  "updateTokenHolding s i updates =
     (case map_of (tokenHoldings s) i of
        None \<Rightarrow> Inl (TokenHoldingNotFound i)
      | Some holding \<Rightarrow>
          (let updatedHolding = updates holding
           in Inr (updatedHolding, s\<lparr>tokenHoldings := map_set i updatedHolding (tokenHoldings s)\<rparr>)))"

subsection \<open>Transactions\<close>

fun withPlayers ::
  "store \<Rightarrow> transaction list \<Rightarrow> error + (transaction \<times> player \<times> player option) list" where
  "withPlayers s [] = Inr []"
| "withPlayers s (tx # ts) =
     (case getPlayer s (t_playerId tx) of
        None \<Rightarrow> Inl (PlayerNotFound (t_playerId tx))
      | Some pl \<Rightarrow>
          (let fromPlayer =
                 (case fromPlayerId tx of
                    None \<Rightarrow> None
                  | Some f \<Rightarrow> if f = 0 then None else getPlayer s f)
           in case withPlayers s ts of
                Inl e \<Rightarrow> Inl e
              | Inr r \<Rightarrow> Inr ((tx, pl, fromPlayer) # r)))"

definition timeOf :: "time option \<Rightarrow> int" where
  "timeOf t = (case t of None \<Rightarrow> 0 | Some ms \<Rightarrow> ms)"

text \<open>\<open>sort((a, b) => bTime - aTime)\<close>: newest first; the sort is stable, as \<open>sort_key\<close> is.\<close>

definition getUserTransactions ::
  "store \<Rightarrow> ident \<Rightarrow> error + (transaction \<times> player \<times> player option) list" where
  "getUserTransactions s userId =
     withPlayers s
       (sort_key (\<lambda>tx. - timeOf (t_timestamp tx))
          (filter (\<lambda>tx. t_userId tx = userId) (map_values (transactions s))))"

definition createTransaction ::
  "store \<Rightarrow> time \<Rightarrow> ident \<Rightarrow> ident \<Rightarrow> string \<Rightarrow> int \<Rightarrow> rat \<Rightarrow> ident option \<Rightarrow> transaction \<times> store" where
  "createTransaction s now userId playerId ty amt price fromId =
     (let i = transactionIdCounter s;
          tx = \<lparr>t_id = i, t_userId = userId, t_playerId = playerId, t_type = ty,
                t_amount = amt, t_price = price, t_timestamp = Some now,
                fromPlayerId = (case fromId of None \<Rightarrow> None
                                | Some f \<Rightarrow> if f = 0 then None else Some f)\<rparr>
      in (tx, s\<lparr>transactionIdCounter := i + 1,
                 transactions := map_set i tx (transactions s)\<rparr>))"

subsection \<open>Portfolio\<close>

text \<open>The body of \<open>tokens.forEach\<close> on the four running totals
  \<open>(totalValue, nbaTokens, nflTokens, stakedTokens)\<close>.\<close>

fun addToken :: "rat \<times> int \<times> int \<times> int \<Rightarrow> tokenHolding \<times> player \<Rightarrow> rat \<times> int \<times> int \<times> int" where
  "addToken (tv, nba, nfl, staked) (token, pl) =
     (let tokenValue = of_int (amount token) * tokenPrice pl;
          tv' = tv + tokenValue;
          nba' = (if sport pl = ''NBA'' then nba + amount token else nba);
          nfl' = (if sport pl = ''NBA'' then nfl
                  else if sport pl = ''NFL'' then nfl + amount token else nfl);
          staked' = (if isStaked token then staked + amount token else staked)
      in (tv', nba', nfl', staked'))"

definition getUserPortfolio :: "store \<Rightarrow> ident \<Rightarrow> error + portfolio" where
  "getUserPortfolio s userId =
     (case getUserTokens s userId of
        Inl e \<Rightarrow> Inl e
      | Inr toks \<Rightarrow>
          (case getUserTransactions s userId of
             Inl e \<Rightarrow> Inl e
           | Inr txs \<Rightarrow>
               (let portfolioHistoryEntries =
                      sort_key (\<lambda>entry. timeOf (ph_timestamp entry))
                        (filter (\<lambda>entry. ph_userId entry = userId)
                           (map_values (portfolioHistoryMap s)))
                in case foldl addToken (0, 0, 0, 0) toks of
                     (tv, nba, nfl, staked) \<Rightarrow>
                       Inr \<lparr>totalValue = tv, nbaTokens = nba, nflTokens = nfl,
                            stakedTokens = staked, tokens = toks, pf_transactions = txs,
                            history = portfolioHistoryEntries\<rparr>)))"

definition updatePortfolioHistory :: "store \<Rightarrow> time \<Rightarrow> ident \<Rightarrow> rat \<Rightarrow> portfolioHistory \<times> store" where
  "updatePortfolioHistory s now userId tv =
     (let i = portfolioHistoryIdCounter s;
          entry = \<lparr>ph_id = i, ph_userId = userId, ph_totalValue = tv, ph_timestamp = Some now\<rparr>
      in (entry, s\<lparr>portfolioHistoryIdCounter := i + 1,
                    portfolioHistoryMap := map_set i entry (portfolioHistoryMap s)\<rparr>))"

subsection \<open>Staking\<close>

text \<open>\<open>d.setDate(d.getDate() + n)\<close>: the same time of day \<open>n\<close> calendar days later, taken
  in a zone without clock changes (24 hours a day).\<close>

definition addDays :: "time \<Rightarrow> int \<Rightarrow> time" where
  "addDays t n = t + n * 86400000"

definition stakeTokens ::
  "store \<Rightarrow> time \<Rightarrow> ident \<Rightarrow> ident \<Rightarrow> int \<Rightarrow> ident \<Rightarrow> error + tokenHolding \<times> store" where
  "stakeTokens s now userId playerId amt planId =
     (case getTokenHolding s userId playerId of
        None \<Rightarrow> Inl (HoldingNotFoundFor userId playerId)
      | Some holding \<Rightarrow>
          (case map_of (stakingPlans s) planId of
             None \<Rightarrow> Inl (StakingPlanNotFound planId)
           | Some plan \<Rightarrow>
               if amt > amount holding then Inl (NotEnoughTokens amt (amount holding))
               else if amt < minTokens plan then Inl (BelowMinimum (minTokens plan))
               else updateTokenHolding s (h_id holding)
                      (\<lambda>h. h\<lparr>isStaked := True, stakingPlan := Some (sp_name plan),
                              stakingStart := Some now,
                              stakingEnd := Some (addDays now (lockPeriodDays plan))\<rparr>)))"

definition unstakeTokens :: "store \<Rightarrow> time \<Rightarrow> ident \<Rightarrow> ident \<Rightarrow> error + tokenHolding \<times> store" where
  "unstakeTokens s now userId playerId =
     (case getTokenHolding s userId playerId of
        None \<Rightarrow> Inl (HoldingNotFoundFor userId playerId)
      | Some holding \<Rightarrow>
          if \<not> isStaked holding then Inl NotStaked
          else if (case stakingEnd holding of None \<Rightarrow> False | Some e \<Rightarrow> now < e)
          then Inl StakingPeriodNotOver
          else updateTokenHolding s (h_id holding)
                 (\<lambda>h. h\<lparr>isStaked := False, stakingPlan := None,
                         stakingStart := None, stakingEnd := None\<rparr>))"

subsection \<open>Achievements\<close>

definition getAchievements :: "store \<Rightarrow> achievement list" where
  "getAchievements s = map_values (achievements s)"

definition getAchievement :: "store \<Rightarrow> ident \<Rightarrow> achievement option" where
  "getAchievement s i = map_of (achievements s) i"

definition findUserAchievement :: "store \<Rightarrow> ident \<Rightarrow> ident \<Rightarrow> userAchievement option" where
  "findUserAchievement s userId achievementId =
     find (\<lambda>ua. ua_userId ua = userId \<and> ua_achievementId ua = achievementId)
       (map_values (userAchievements s))"

text \<open>The store comes back with the result, also when the call throws: on the creating
  path the id counter has been advanced before the achievement is looked up. The found
  record is written in place and then set under its own id.\<close>

definition updateUserAchievementProgress ::
  "store \<Rightarrow> time \<Rightarrow> ident \<Rightarrow> ident \<Rightarrow> int \<Rightarrow> (error + userAchievement) \<times> store" where
  "updateUserAchievementProgress s now userId achievementId prog =
     (case findUserAchievement s userId achievementId of
        None \<Rightarrow>
          (let newUserAchievement =
                 \<lparr>ua_id = userAchievementIdCounter s, ua_userId = userId,
                  ua_achievementId = achievementId, completed = False, progress = prog,
                  completedAt = None, createdAt = Some now\<rparr>;
               s1 = s\<lparr>userAchievementIdCounter := userAchievementIdCounter s + 1\<rparr>
           in case getAchievement s1 achievementId of
                None \<Rightarrow> (Inl (AchievementNotFound achievementId), s1)
              | Some a \<Rightarrow>
                  (let ua = (if prog \<ge> requirementValue a
                             then newUserAchievement\<lparr>completed := True, completedAt := Some now\<rparr>
                             else newUserAchievement)
                   in (Inr ua, s1\<lparr>userAchievements := map_set (ua_id ua) ua (userAchievements s1)\<rparr>)))
      | Some userAchievement \<Rightarrow>
          (case getAchievement s achievementId of
             None \<Rightarrow> (Inl (AchievementNotFound achievementId), s)
           | Some a \<Rightarrow>
               if prog > progress userAchievement then
                 (let ua1 = userAchievement\<lparr>progress := prog\<rparr>;
                      ua2 = (if \<not> completed ua1 \<and> prog \<ge> requirementValue a
                             then ua1\<lparr>completed := True, completedAt := Some now\<rparr>
                             else ua1)
                  in (Inr ua2, s\<lparr>userAchievements := map_set (ua_id ua2) ua2 (userAchievements s)\<rparr>))
               else (Inr userAchievement, s)))"

text \<open>The \<open>switch\<close> on the requirement kind; \<open>None\<close> is the \<open>default: continue\<close>.\<close>

definition computeProgress ::
  "string \<Rightarrow> (transaction \<times> player \<times> player option) list \<Rightarrow> (tokenHolding \<times> player) list
     \<Rightarrow> portfolio \<Rightarrow> int option" where
  "computeProgress req txs holdings pf =
     (if req = ''total_transactions'' then Some (int (length txs))
      else if req = ''total_buys'' then
        Some (int (length (filter (\<lambda>t. t_type (fst t) = ''buy'') txs)))
      else if req = ''total_sells'' then
        Some (int (length (filter (\<lambda>t. t_type (fst t) = ''sell'') txs)))
      else if req = ''total_swaps'' then
        Some (int (length (filter (\<lambda>t. t_type (fst t) = ''swap'') txs)))
      else if req = ''total_value'' then Some \<lfloor>totalValue pf\<rfloor>
      else if req = ''different_players'' then
        Some (int (card (set (map (\<lambda>h. h_playerId (fst h)) holdings))))
      else if req = ''nba_players'' then
        Some (int (length (filter (\<lambda>h. sport (snd h) = ''NBA'') holdings)))
      else if req = ''nfl_players'' then
        Some (int (length (filter (\<lambda>h. sport (snd h) = ''NFL'') holdings)))
      else if req = ''staked_tokens'' then
        Some (int (length (filter (\<lambda>h. isStaked (fst h)) holdings)))
      else None)"

text \<open>The \<open>for\<close> loop over the achievements, with the list \<open>updatedAchievements\<close>.\<close>

fun achievementLoop ::
  "store \<Rightarrow> time \<Rightarrow> ident \<Rightarrow> (transaction \<times> player \<times> player option) list
     \<Rightarrow> (tokenHolding \<times> player) list \<Rightarrow> portfolio \<Rightarrow> achievement list
     \<Rightarrow> userAchievement list \<Rightarrow> (error + userAchievement list) \<times> store" where
  "achievementLoop s now userId txs holdings pf [] updated = (Inr updated, s)"
| "achievementLoop s now userId txs holdings pf (a # as) updated =
     (case computeProgress (requirement a) txs holdings pf of
        None \<Rightarrow> achievementLoop s now userId txs holdings pf as updated
      | Some prog \<Rightarrow>
          (case updateUserAchievementProgress s now userId (a_id a) prog of
             (Inl e, s') \<Rightarrow> (Inl e, s')
           | (Inr ua, s') \<Rightarrow>
               achievementLoop s' now userId txs holdings pf as (updated @ [ua])))"

fun withAchievement :: "store \<Rightarrow> userAchievement list \<Rightarrow> error + (userAchievement \<times> achievement) list" where
  "withAchievement s [] = Inr []"
| "withAchievement s (ua # uas) =
     (case getAchievement s (ua_achievementId ua) of
        None \<Rightarrow> Inl (AchievementNotFound (ua_achievementId ua))
      | Some a \<Rightarrow>
          (case withAchievement s uas of
             Inl e \<Rightarrow> Inl e
           | Inr r \<Rightarrow> Inr ((ua, a) # r)))"

definition checkAndUpdateAchievements ::
  "store \<Rightarrow> time \<Rightarrow> ident \<Rightarrow> (error + (userAchievement \<times> achievement) list) \<times> store" where
  "checkAndUpdateAchievements s now userId =
     (case getUserTransactions s userId of
        Inl e \<Rightarrow> (Inl e, s)
      | Inr txs \<Rightarrow>
          (case getUserTokens s userId of
             Inl e \<Rightarrow> (Inl e, s)
           | Inr holdings \<Rightarrow>
               (case getUserPortfolio s userId of
                  Inl e \<Rightarrow> (Inl e, s)
                | Inr pf \<Rightarrow>
                    (case achievementLoop s now userId txs holdings pf (getAchievements s) [] of
                       (Inl e, s') \<Rightarrow> (Inl e, s')
                     | (Inr updated, s') \<Rightarrow> (withAchievement s' updated, s')))))"

text \<open>\<open>getUserAchievements\<close>: the map from achievement id to the user's record, the records
  created for the achievements it lacks, and the joined list, completed first and then by
  falling progress (two stable passes give the comparator's order).\<close>

fun createMissing ::
  "store \<Rightarrow> time \<Rightarrow> ident \<Rightarrow> achievement list \<Rightarrow> (ident \<times> userAchievement) list
     \<Rightarrow> (ident \<times> userAchievement) list \<times> store" where
  "createMissing s now userId [] uam = (uam, s)"
| "createMissing s now userId (a # as) uam =
     (let ua = \<lparr>ua_id = userAchievementIdCounter s, ua_userId = userId,
                ua_achievementId = a_id a, completed = False, progress = 0,
                completedAt = None, createdAt = Some now\<rparr>;
          s1 = s\<lparr>userAchievementIdCounter := userAchievementIdCounter s + 1,
                 userAchievements := map_set (ua_id ua) ua (userAchievements s)\<rparr>
      in createMissing s1 now userId as (map_set (a_id a) ua uam))"

definition getUserAchievements ::
  "store \<Rightarrow> time \<Rightarrow> ident \<Rightarrow> (error + (userAchievement \<times> achievement) list) \<times> store" where
  "getUserAchievements s now userId =
     (let allAchievements = getAchievements s;
          existingUserAchievements =
            filter (\<lambda>ua. ua_userId ua = userId) (map_values (userAchievements s));
          userAchievementMap =
            foldl (\<lambda>m ua. map_set (ua_achievementId ua) ua m) [] existingUserAchievements;
          missingAchievements =
            filter (\<lambda>a. map_of userAchievementMap (a_id a) = None) allAchievements
      in case createMissing s now userId missingAchievements userAchievementMap of
           (uam, s') \<Rightarrow>
             (case withAchievement s' (map_values uam) of
                Inl e \<Rightarrow> (Inl e, s')
              | Inr joined \<Rightarrow>
                  (Inr (sort_key (\<lambda>x. if completed (fst x) then 0 else (1::int))
                          (sort_key (\<lambda>x. - progress (fst x)) joined)), s')))"

section \<open>The request handlers (server/routes.ts)\<close>

datatype body =
    Message string
  | ErrorMessage error
  | Trade transaction tokenHolding
  | Swapped transaction tokenHolding tokenHolding
  | Staking tokenHolding transaction
  | UserAchievements "(userAchievement \<times> achievement) list"
  | Checked "(userAchievement \<times> achievement) list" "(userAchievement \<times> achievement) list"

type_synonym response = "nat \<times> body"

definition buy :: "store \<Rightarrow> time \<Rightarrow> ident \<Rightarrow> ident \<Rightarrow> int \<Rightarrow> rat \<Rightarrow> response \<times> store" where
  "buy s now userId playerId amt price =
     (if userId = 0 \<or> playerId = 0 \<or> amt = 0 \<or> price = 0
      then ((400, Message ''Missing required fields''), s)
      else case getPlayer s playerId of
        None \<Rightarrow> ((404, Message ''Player not found''), s)
      | Some pl \<Rightarrow>
         (case getUser s userId of
            None \<Rightarrow> ((404, Message ''User not found''), s)
          | Some u \<Rightarrow>
             (case (case getTokenHolding s userId playerId of
                      Some holding \<Rightarrow>
                        updateTokenHolding s (h_id holding)
                          (\<lambda>h. h\<lparr>amount := amount holding + amt, purchasePrice := price\<rparr>)
                    | None \<Rightarrow> Inr (createTokenHolding s userId playerId amt price)) of
                Inl e \<Rightarrow> ((500, Message ''Failed to buy token''), s)
              | Inr (holding, s1) \<Rightarrow>
                 (case createTransaction s1 now userId playerId ''buy'' amt price None of
                    (tx, s2) \<Rightarrow>
                      (case getUserPortfolio s2 userId of
                         Inl e \<Rightarrow> ((500, Message ''Failed to buy token''), s2)
                       | Inr pf \<Rightarrow>
                           (case updatePortfolioHistory s2 now userId (totalValue pf) of
                              (entry, s3) \<Rightarrow> ((201, Trade tx holding), s3)))))))"

definition sell :: "store \<Rightarrow> time \<Rightarrow> ident \<Rightarrow> ident \<Rightarrow> int \<Rightarrow> rat \<Rightarrow> response \<times> store" where
  "sell s now userId playerId amt price =
     (if userId = 0 \<or> playerId = 0 \<or> amt = 0 \<or> price = 0
      then ((400, Message ''Missing required fields''), s)
      else case getTokenHolding s userId playerId of
        None \<Rightarrow> ((404, Message ''You don't own this token''), s)
      | Some holding \<Rightarrow>
          if amount holding < amt then ((400, Message ''Not enough tokens to sell''), s)
          else if isStaked holding then ((400, Message ''Cannot sell staked tokens''), s)
          else
            (case updateTokenHolding s (h_id holding) (\<lambda>h. h\<lparr>amount := amount holding - amt\<rparr>) of
               Inl e \<Rightarrow> ((500, Message ''Failed to sell token''), s)
             | Inr (updatedHolding, s1) \<Rightarrow>
                (case createTransaction s1 now userId playerId ''sell'' amt price None of
                   (tx, s2) \<Rightarrow>
                     (case getUserPortfolio s2 userId of
                        Inl e \<Rightarrow> ((500, Message ''Failed to sell token''), s2)
                      | Inr pf \<Rightarrow>
                          (case updatePortfolioHistory s2 now userId (totalValue pf) of
                             (entry, s3) \<Rightarrow> ((200, Trade tx updatedHolding), s3))))))"

text \<open>\<open>Math.floor(fromValue / Number(toPlayer.tokenPrice))\<close>. A zero divisor gives no
  integer in JavaScript but an infinity or \<open>NaN\<close>, which the comparison \<open>toAmount <= 0\<close>
  then sees: true for \<open>-Infinity\<close> only.\<close>

datatype quotient = Finite int | PosInfinity | NegInfinity | NaN

definition floorDiv :: "rat \<Rightarrow> rat \<Rightarrow> quotient" where
  "floorDiv a b =
     (if b \<noteq> 0 then Finite \<lfloor>a / b\<rfloor>
      else if a > 0 then PosInfinity
      else if a < 0 then NegInfinity
      else NaN)"

text \<open>The swap handler. The result is \<open>None\<close> where the handler goes on with an infinite or
  \<open>NaN\<close> amount (a destination price of zero): the amounts it writes then are no integers
  and the run leaves this model.\<close>

definition swap :: "store \<Rightarrow> time \<Rightarrow> ident \<Rightarrow> ident \<Rightarrow> ident \<Rightarrow> int \<Rightarrow> (response \<times> store) option" where
  "swap s now userId fromId toId amt =
     (if userId = 0 \<or> fromId = 0 \<or> toId = 0 \<or> amt = 0
      then Some ((400, Message ''Missing required fields''), s)
      else case getTokenHolding s userId fromId of
        None \<Rightarrow> Some ((404, Message ''You don't own the source token''), s)
      | Some fromHolding \<Rightarrow>
          if amount fromHolding < amt then Some ((400, Message ''Not enough tokens to swap''), s)
          else if isStaked fromHolding then Some ((400, Message ''Cannot swap staked tokens''), s)
          else
            (case (getPlayer s fromId, getPlayer s toId) of
               (Some fromPlayer, Some toPlayer) \<Rightarrow>
                 (let fromValue = tokenPrice fromPlayer * of_int amt
                  in case floorDiv fromValue (tokenPrice toPlayer) of
                       NegInfinity \<Rightarrow> Some ((400, Message ''Swap amount too small''), s)
                     | PosInfinity \<Rightarrow> None
                     | NaN \<Rightarrow> None
                     | Finite toAmount \<Rightarrow>
                         if toAmount \<le> 0 then Some ((400, Message ''Swap amount too small''), s)
                         else
                           (case updateTokenHolding s (h_id fromHolding)
                                   (\<lambda>h. h\<lparr>amount := amount fromHolding - amt\<rparr>) of
                              Inl e \<Rightarrow> Some ((500, Message ''Failed to swap tokens''), s)
                            | Inr (fromUpdated, s1) \<Rightarrow>
                               (case (case getTokenHolding s1 userId toId of
                                        Some toHolding \<Rightarrow>
                                          updateTokenHolding s1 (h_id toHolding)
                                            (\<lambda>h. h\<lparr>amount := amount toHolding + toAmount\<rparr>)
                                      | None \<Rightarrow>
                                          Inr (createTokenHolding s1 userId toId toAmount
                                                 (tokenPrice toPlayer))) of
                                  Inl e \<Rightarrow> Some ((500, Message ''Failed to swap tokens''), s1)
                                | Inr (toHolding, s2) \<Rightarrow>
                                   (case createTransaction s2 now userId toId ''swap'' toAmount
                                           (tokenPrice toPlayer) (Some fromId) of
                                      (tx, s3) \<Rightarrow>
                                        (case getUserPortfolio s3 userId of
                                           Inl e \<Rightarrow> Some ((500, Message ''Failed to swap tokens''), s3)
                                         | Inr pf \<Rightarrow>
                                             (case updatePortfolioHistory s3 now userId (totalValue pf) of
                                                (entry, s4) \<Rightarrow>
                                                  Some ((200, Swapped tx
                                                           (fromHolding\<lparr>amount := amount fromHolding - amt\<rparr>)
                                                           toHolding), s4)))))))
             | _ \<Rightarrow> Some ((404, Message ''Player not found''), s)))"

definition stake :: "store \<Rightarrow> time \<Rightarrow> ident \<Rightarrow> ident \<Rightarrow> int \<Rightarrow> ident \<Rightarrow> response \<times> store" where
  "stake s now userId playerId amt planId =
     (if userId = 0 \<or> playerId = 0 \<or> amt = 0 \<or> planId = 0
      then ((400, Message ''Missing required fields''), s)
      else case stakeTokens s now userId playerId amt planId of
        Inl e \<Rightarrow> ((400, ErrorMessage e), s)
      | Inr (holding, s1) \<Rightarrow>
          (case getPlayer s1 playerId of
             None \<Rightarrow> ((404, Message ''Player not found''), s1)
           | Some pl \<Rightarrow>
               (case createTransaction s1 now userId playerId ''stake'' amt (tokenPrice pl) None of
                  (tx, s2) \<Rightarrow> ((200, Staking holding tx), s2))))"

definition unstake :: "store \<Rightarrow> time \<Rightarrow> ident \<Rightarrow> ident \<Rightarrow> response \<times> store" where
  "unstake s now userId playerId =
     (if userId = 0 \<or> playerId = 0
      then ((400, Message ''Missing required fields''), s)
      else case unstakeTokens s now userId playerId of
        Inl e \<Rightarrow> ((400, ErrorMessage e), s)
      | Inr (holding, s1) \<Rightarrow>
          (case getPlayer s1 playerId of
             None \<Rightarrow> ((404, Message ''Player not found''), s1)
           | Some pl \<Rightarrow>
               (case createTransaction s1 now userId playerId ''unstake'' (amount holding)
                       (tokenPrice pl) None of
                  (tx, s2) \<Rightarrow> ((200, Staking holding tx), s2))))"

text \<open>The two achievement routes of a user; the path parameter is \<open>None\<close> where \<open>parseInt\<close>
  gives \<open>NaN\<close>.\<close>

definition userAchievementsRoute :: "store \<Rightarrow> time \<Rightarrow> ident option \<Rightarrow> response \<times> store" where
  "userAchievementsRoute s now param =
     (case param of
        None \<Rightarrow> ((400, Message ''Invalid user ID''), s)
      | Some userId \<Rightarrow>
          (case getUser s userId of
             None \<Rightarrow> ((404, Message ''User not found''), s)
           | Some u \<Rightarrow>
               (case getUserAchievements s now userId of
                  (Inl e, s') \<Rightarrow> ((500, Message ''Failed to fetch user achievements''), s')
                | (Inr uas, s') \<Rightarrow> ((200, UserAchievements uas), s'))))"

definition checkRoute :: "store \<Rightarrow> time \<Rightarrow> ident option \<Rightarrow> response \<times> store" where
  "checkRoute s now param =
     (case param of
        None \<Rightarrow> ((400, Message ''Invalid user ID''), s)
      | Some userId \<Rightarrow>
          (case getUser s userId of
             None \<Rightarrow> ((404, Message ''User not found''), s)
           | Some u \<Rightarrow>
               (case checkAndUpdateAchievements s now userId of
                  (Inl e, s') \<Rightarrow> ((500, Message ''Failed to check achievements''), s')
                | (Inr updatedAchievements, s') \<Rightarrow>
                    (let newlyCompleted =
                           filter (\<lambda>ua. completed (fst ua) \<and>
                                     (case completedAt (fst ua) of
                                        None \<Rightarrow> False
                                      | Some t \<Rightarrow> now - t < 60000))
                             updatedAchievements
                     in ((200, Checked updatedAchievements newlyCompleted), s')))))"

subsection \<open>Runs of requests\<close>

datatype request =
    Buy ident ident int rat
  | Sell ident ident int rat
  | Swap ident ident ident int
  | Stake ident ident int ident
  | Unstake ident ident
  | GetUserAchievements "ident option"
  | Check "ident option"

text \<open>One request served at clock value \<open>now\<close>; a swap that leaves the model leaves the
  run too.\<close>

fun handle :: "store \<Rightarrow> time \<times> request \<Rightarrow> store option" where
  "handle s (now, Buy u p a pr) = Some (snd (buy s now u p a pr))"
| "handle s (now, Sell u p a pr) = Some (snd (sell s now u p a pr))"
| "handle s (now, Swap u f t a) = map_option snd (swap s now u f t a)"
| "handle s (now, Stake u p a pl) = Some (snd (stake s now u p a pl))"
| "handle s (now, Unstake u p) = Some (snd (unstake s now u p))"
| "handle s (now, GetUserAchievements u) = Some (snd (userAchievementsRoute s now u))"
| "handle s (now, Check u) = Some (snd (checkRoute s now u))"

fun run :: "store \<Rightarrow> (time \<times> request) list \<Rightarrow> store option" where
  "run s [] = Some s"
| "run s (r # rs) = (case handle s r of None \<Rightarrow> None | Some s' \<Rightarrow> run s' rs)"

section \<open>Well-formed stores\<close>

text \<open>Every \<open>set\<close> of the store files a record under its own id, and a new id is the
  value of a counter that only grows: in a table of the running program the keys are
  distinct, each is the id of its record, and all lie below the counter.\<close>

definition keyed :: "('v \<Rightarrow> ident) \<Rightarrow> (ident \<times> 'v) list \<Rightarrow> ident \<Rightarrow> bool" where
  "keyed idOf m counter \<longleftrightarrow>
     distinct (map fst m) \<and> list_all (\<lambda>kv. idOf (snd kv) = fst kv \<and> fst kv < counter) m"

definition wf_holdings :: "store \<Rightarrow> bool" where
  "wf_holdings s \<longleftrightarrow> keyed h_id (tokenHoldings s) (tokenHoldingIdCounter s)"

definition wf_userAchievements :: "store \<Rightarrow> bool" where
  "wf_userAchievements s \<longleftrightarrow> keyed ua_id (userAchievements s) (userAchievementIdCounter s)"

definition wf_transactions :: "store \<Rightarrow> bool" where
  "wf_transactions s \<longleftrightarrow> keyed t_id (transactions s) (transactionIdCounter s)"

definition wf_history :: "store \<Rightarrow> bool" where
  "wf_history s \<longleftrightarrow> keyed ph_id (portfolioHistoryMap s) (portfolioHistoryIdCounter s)"

text \<open>The achievements are filed once, by \<open>initAchievements\<close>, each under its id.\<close>

definition wf_achievements :: "store \<Rightarrow> bool" where
  "wf_achievements s \<longleftrightarrow>
     distinct (map fst (achievements s)) \<and>
     list_all (\<lambda>kv. a_id (snd kv) = fst kv) (achievements s)"


text \<open>All of this together, for every user.\<close>

definition all_players_known :: "store \<Rightarrow> bool" where
  "all_players_known s \<longleftrightarrow>
     list_all (\<lambda>h. getPlayer s (h_playerId h) \<noteq> None) (map_values (tokenHoldings s)) \<and>
     list_all (\<lambda>tx. getPlayer s (t_playerId tx) \<noteq> None) (map_values (transactions s))"

definition wf_store :: "store \<Rightarrow> bool" where
  "wf_store s \<longleftrightarrow>
     wf_holdings s \<and> wf_transactions s \<and> wf_history s \<and> wf_userAchievements s \<and>
     wf_achievements s \<and> all_players_known s"


definition userHistory :: "store \<Rightarrow> ident \<Rightarrow> portfolioHistory list" where
  "userHistory s userId =
     filter (\<lambda>entry. ph_userId entry = userId) (map_values (portfolioHistoryMap s))"

text \<open>Progress does not fall from \<open>s\<close> to \<open>s'\<close>: every user-achievement record of \<open>s\<close> is
  still there, for the same user and achievement, with at least the progress it had.\<close>

definition progress_kept :: "store \<Rightarrow> store \<Rightarrow> bool" where
  "progress_kept s s' \<longleftrightarrow>
     list_all (\<lambda>kv. case map_of (userAchievements s') (fst kv) of
                       None \<Rightarrow> False
                     | Some ua' \<Rightarrow> ua_userId ua' = ua_userId (snd kv) \<and>
                          ua_achievementId ua' = ua_achievementId (snd kv) \<and>
                          progress (snd kv) \<le> progress ua')
       (userAchievements s)"

section \<open>A sample store\<close>

text \<open>The staking plans and achievements of \<open>initStakingPlans\<close> and \<open>initAchievements\<close>,
  three players, two users; user 1 holds ten tokens of player 1 and six staked tokens of
  player 3, user 2 holds nothing.\<close>

definition plans0 :: "(ident \<times> stakingPlan') list" where
  "plans0 =
     [(1, \<lparr>sp_id = 1, sp_name = ''Rookie Stake'', apy = 5, lockPeriodDays = 30, minTokens = 2\<rparr>),
      (2, \<lparr>sp_id = 2, sp_name = ''All-Star Stake'', apy = 8, lockPeriodDays = 90, minTokens = 5\<rparr>),
      (3, \<lparr>sp_id = 3, sp_name = ''MVP Stake'', apy = 12, lockPeriodDays = 180, minTokens = 10\<rparr>)]"

definition achievements0 :: "(ident \<times> achievement) list" where
  "achievements0 =
     [(1, \<lparr>a_id = 1, a_name = ''First Trade'', requirement = ''total_transactions'',
           requirementValue = 1, rewardAmount = 50, category = ''trade''\<rparr>),
      (2, \<lparr>a_id = 2, a_name = ''Trading Novice'', requirement = ''total_transactions'',
           requirementValue = 5, rewardAmount = 100, category = ''trade''\<rparr>),
      (3, \<lparr>a_id = 3, a_name = ''Trading Enthusiast'', requirement = ''total_transactions'',
           requirementValue = 25, rewardAmount = 250, category = ''trade''\<rparr>),
      (4, \<lparr>a_id = 4, a_name = ''Trading Expert'', requirement = ''total_transactions'',
           requirementValue = 100, rewardAmount = 500, category = ''trade''\<rparr>),
      (5, \<lparr>a_id = 5, a_name = ''Portfolio Starter'', requirement = ''total_value'',
           requirementValue = 1000, rewardAmount = 100, category = ''portfolio''\<rparr>),
      (6, \<lparr>a_id = 6, a_name = ''Portfolio Builder'', requirement = ''total_value'',
           requirementValue = 5000, rewardAmount = 250, category = ''portfolio''\<rparr>),
      (7, \<lparr>a_id = 7, a_name = ''Portfolio Manager'', requirement = ''total_value'',
           requirementValue = 10000, rewardAmount = 500, category = ''portfolio''\<rparr>),
      (8, \<lparr>a_id = 8, a_name = ''Diversifier'', requirement = ''different_players'',
           requirementValue = 5, rewardAmount = 150, category = ''diversity''\<rparr>),
      (9, \<lparr>a_id = 9, a_name = ''NBA Enthusiast'', requirement = ''nba_players'',
           requirementValue = 3, rewardAmount = 100, category = ''sport''\<rparr>),
      (10, \<lparr>a_id = 10, a_name = ''NFL Fan'', requirement = ''nfl_players'',
            requirementValue = 3, rewardAmount = 100, category = ''sport''\<rparr>),
      (11, \<lparr>a_id = 11, a_name = ''Staking Beginner'', requirement = ''staked_tokens'',
            requirementValue = 1, rewardAmount = 75, category = ''staking''\<rparr>),
      (12, \<lparr>a_id = 12, a_name = ''Staking Enthusiast'', requirement = ''staked_tokens'',
            requirementValue = 3, rewardAmount = 200, category = ''staking''\<rparr>)]"

definition players0 :: "(ident \<times> player) list" where
  "players0 =
     [(1, \<lparr>p_id = 1, p_name = ''A'', sport = ''NBA'', tokenPrice = 2,
           totalSupply = 1000, availableSupply = 850\<rparr>),
      (2, \<lparr>p_id = 2, p_name = ''B'', sport = ''NFL'', tokenPrice = 4,
           totalSupply = 1000, availableSupply = 800\<rparr>),
      (3, \<lparr>p_id = 3, p_name = ''P'', sport = ''NBA'', tokenPrice = 5 / 2,
           totalSupply = 1000, availableSupply = 900\<rparr>)]"

definition users0 :: "(ident \<times> user) list" where
  "users0 =
     [(1, \<lparr>u_id = 1, username = ''admin'', password = ''x'', email = ''admin@example.com''\<rparr>),
      (2, \<lparr>u_id = 2, username = ''demo'', password = ''y'', email = ''demo@example.com''\<rparr>)]"

definition holdings0 :: "(ident \<times> tokenHolding) list" where
  "holdings0 =
     [(1, \<lparr>h_id = 1, h_userId = 1, h_playerId = 1, amount = 10, purchasePrice = 2,
           isStaked = False, stakingPlan = None, stakingStart = None, stakingEnd = None\<rparr>),
      (2, \<lparr>h_id = 2, h_userId = 1, h_playerId = 3, amount = 6, purchasePrice = 5 / 2,
           isStaked = True, stakingPlan = Some ''Rookie Stake'', stakingStart = Some 1000,
           stakingEnd = Some (addDays 1000 30)\<rparr>)]"

definition ledger0 :: store where
  "ledger0 =
     \<lparr>users = users0, players = players0, tokenHoldings = holdings0, transactions = [],
      portfolioHistoryMap = [], stakingPlans = plans0, achievements = achievements0,
      userAchievements = [], tokenHoldingIdCounter = 3, transactionIdCounter = 1,
      portfolioHistoryIdCounter = 1, userAchievementIdCounter = 1\<rparr>"

text \<open>The sample store after a first achievement check for user 1.\<close>

definition ledger1 :: store where
  "ledger1 = snd (checkRoute ledger0 7 (Some 1))"

text \<open>The sample store after user 1 has sold all ten tokens of player 1.\<close>

definition ledger2 :: store where
  "ledger2 = snd (sell ledger0 7 1 1 10 2)"

section \<open>Association lists as maps\<close>

lemma map_of_map_set: "map_of (map_set k v m) = (map_of m)(k \<mapsto> v)"
  by (induction m) auto

lemma keys_map_set':
  "map fst (map_set k v m) = (if map_of m k = None then map fst m @ [k] else map fst m)"
  by (induction m) auto

lemma keys_map_set:
  "map fst (map_set k v m) = (if k \<in> fst ` set m then map fst m else map fst m @ [k])"
  by (simp add: keys_map_set' map_of_eq_None_iff)

lemma map_set_absent: "k \<notin> fst ` set m \<Longrightarrow> map_set k v m = m @ [(k, v)]"
  by (induction m) auto

lemma map_set_present:
  "distinct (map fst m) \<Longrightarrow> k \<in> fst ` set m \<Longrightarrow>
   map_set k v m = map (\<lambda>kv. if fst kv = k then (k, v) else kv) m"
proof (induction m)
  case Nil
  then show ?case by simp
next
  case (Cons a m)
  show ?case
  proof (cases "fst a = k")
    case True
    with Cons.prems have "k \<notin> fst ` set m" by auto
    then have "map (\<lambda>kv. if fst kv = k then (k, v) else kv) m = m"
      by (intro map_idI) force
    with True show ?thesis by (cases a) simp
  next
    case False
    with Cons show ?thesis by (cases a) auto
  qed
qed

lemma keyedD:
  assumes "keyed idOf m c" and "(k, v) \<in> set m"
  shows "idOf v = k" and "k < c" and "map_of m k = Some v"
  using assms by (auto simp: keyed_def list_all_iff)

lemma keyed_distinct: "keyed idOf m c \<Longrightarrow> distinct (map fst m)"
  by (simp add: keyed_def)

lemma keyed_lookup:
  assumes "keyed idOf m c" and "v \<in> set (map_values m)"
  shows "map_of m (idOf v) = Some v"
proof -
  from assms(2) obtain k where "(k, v) \<in> set m"
    by (auto simp: map_values_def)
  with assms(1) show ?thesis by (auto dest: keyedD)
qed

lemma keyed_values_replace:
  assumes "keyed idOf m c" and "map_of m k = Some v0"
  shows "map_values (map_set k v m) = map (\<lambda>x. if idOf x = k then v else x) (map_values m)"
proof -
  from assms(2) have kin: "k \<in> fst ` set m"
    by (metis domI dom_map_of_conv_image_fst)
  have "map_set k v m = map (\<lambda>kv. if fst kv = k then (k, v) else kv) m"
    using keyed_distinct[OF assms(1)] kin by (rule map_set_present)
  moreover have "\<And>kv. kv \<in> set m \<Longrightarrow> idOf (snd kv) = fst kv"
    using assms(1) by (auto simp: keyed_def list_all_iff)
  ultimately show ?thesis
    by (auto simp: map_values_def)
qed

lemma keyed_replace:
  assumes "keyed idOf m c" and "map_of m k = Some v0" and "idOf v = k"
  shows "keyed idOf (map_set k v m) c"
proof -
  from assms(2) have kin: "k \<in> fst ` set m"
    by (metis domI dom_map_of_conv_image_fst)
  have eq: "map_set k v m = map (\<lambda>kv. if fst kv = k then (k, v) else kv) m"
    using keyed_distinct[OF assms(1)] kin by (rule map_set_present)
  have "k < c" using assms(1,2) by (auto simp: keyed_def list_all_iff dest!: map_of_SomeD)
  then have "list_all (\<lambda>kv. idOf (snd kv) = fst kv \<and> fst kv < c) (map_set k v m)"
    using assms(1,3) by (auto simp: keyed_def list_all_iff eq)
  moreover have "distinct (map fst (map_set k v m))"
    using assms(1) kin by (simp add: keys_map_set keyed_def)
  ultimately show ?thesis by (simp add: keyed_def)
qed

lemma keyed_fresh:
  assumes "keyed idOf m c" and "idOf v = c"
  shows "keyed idOf (map_set c v m) (c + 1)"
proof -
  have notin: "c \<notin> fst ` set m"
    using assms(1) by (force simp: keyed_def list_all_iff)
  then show ?thesis
    using assms unfolding keyed_def
    by (auto simp: map_set_absent list_all_iff)
qed

lemma find_map_same:
  "(\<And>x. x \<in> set xs \<Longrightarrow> P (f x) = P x) \<Longrightarrow> find P (map f xs) = map_option f (find P xs)"
  by (induction xs) auto

lemma find_in_set: "find P xs = Some x \<Longrightarrow> x \<in> set xs \<and> P x"
  by (induction xs) (auto split: if_splits)

subsection \<open>Updating a holding found by user and player\<close>

lemma getTokenHolding_found:
  assumes "wf_holdings s" and "getTokenHolding s u p = Some h"
  shows "map_of (tokenHoldings s) (h_id h) = Some h" and "h_userId h = u" and "h_playerId h = p"
  using assms keyed_lookup[of h_id "tokenHoldings s" "tokenHoldingIdCounter s" h]
  by (auto simp: wf_holdings_def getTokenHolding_def dest: find_in_set)

lemma update_found:
  assumes wf: "wf_holdings s" and g: "getTokenHolding s u p = Some h"
    and keep: "h_id (f h) = h_id h" "h_userId (f h) = h_userId h" "h_playerId (f h) = h_playerId h"
  shows "updateTokenHolding s (h_id h) f =
           Inr (f h, s\<lparr>tokenHoldings := map_set (h_id h) (f h) (tokenHoldings s)\<rparr>)"
    and "getTokenHolding (s\<lparr>tokenHoldings := map_set (h_id h) (f h) (tokenHoldings s)\<rparr>) u p = Some (f h)"
    and "wf_holdings (s\<lparr>tokenHoldings := map_set (h_id h) (f h) (tokenHoldings s)\<rparr>)"
proof -
  note fnd = getTokenHolding_found[OF wf g]
  show "updateTokenHolding s (h_id h) f =
           Inr (f h, s\<lparr>tokenHoldings := map_set (h_id h) (f h) (tokenHoldings s)\<rparr>)"
    by (simp add: updateTokenHolding_def fnd(1) Let_def)
  have k: "keyed h_id (tokenHoldings s) (tokenHoldingIdCounter s)"
    using wf by (simp add: wf_holdings_def)
  have vals: "map_values (map_set (h_id h) (f h) (tokenHoldings s)) =
      map (\<lambda>x. if h_id x = h_id h then f h else x) (map_values (tokenHoldings s))"
    by (rule keyed_values_replace[OF k fnd(1)])
  have same: "\<And>x. x \<in> set (map_values (tokenHoldings s)) \<Longrightarrow> h_id x = h_id h \<Longrightarrow> x = h"
    using keyed_lookup[OF k] fnd(1) by (metis option.inject)
  have "find (\<lambda>x. h_userId x = u \<and> h_playerId x = p)
          (map (\<lambda>x. if h_id x = h_id h then f h else x) (map_values (tokenHoldings s)))
        = map_option (\<lambda>x. if h_id x = h_id h then f h else x)
            (find (\<lambda>x. h_userId x = u \<and> h_playerId x = p) (map_values (tokenHoldings s)))"
    by (rule find_map_same) (use same keep fnd in auto)
  then show "getTokenHolding (s\<lparr>tokenHoldings := map_set (h_id h) (f h) (tokenHoldings s)\<rparr>) u p = Some (f h)"
    using g by (simp add: getTokenHolding_def vals)
  show "wf_holdings (s\<lparr>tokenHoldings := map_set (h_id h) (f h) (tokenHoldings s)\<rparr>)"
    using keyed_replace[OF k fnd(1) keep(1)] by (simp add: wf_holdings_def)
qed

section \<open>Staking\<close>



text \<open>
  C5. \<open>unstakeTokens\<close> fails when the user has no holding of the player, when the holding
  is not staked, and when the clock is strictly before \<open>stakingEnd\<close>; whenever it fails the
  unstake request answers 400 and leaves the store as it was. When the clock is at or
  after \<open>stakingEnd\<close> it succeeds and clears \<open>isStaked\<close>, \<open>stakingPlan\<close>,
  \<open>stakingStart\<close> and \<open>stakingEnd\<close> of the holding.
\<close>

theorem unstakeTokens_gate:
  assumes wf: "wf_holdings s"
  shows "(getTokenHolding s u p = None \<longrightarrow>
            unstakeTokens s now u p = Inl (HoldingNotFoundFor u p)) \<and>
         (\<forall>h. getTokenHolding s u p = Some h \<and> \<not> isStaked h \<longrightarrow>
            unstakeTokens s now u p = Inl NotStaked) \<and>
         (\<forall>h e. getTokenHolding s u p = Some h \<and> isStaked h \<and> stakingEnd h = Some e \<and> now < e \<longrightarrow>
            unstakeTokens s now u p = Inl StakingPeriodNotOver) \<and>
         (\<forall>err. unstakeTokens s now u p = Inl err \<longrightarrow>
            fst (fst (unstake s now u p)) = 400 \<and> snd (unstake s now u p) = s) \<and>
         (\<forall>h e. getTokenHolding s u p = Some h \<and> isStaked h \<and> stakingEnd h = Some e \<and> e \<le> now \<longrightarrow>
            (\<exists>s'. unstakeTokens s now u p =
                     Inr (h\<lparr>isStaked := False, stakingPlan := None,
                            stakingStart := None, stakingEnd := None\<rparr>, s') \<and>
                   s' = s\<lparr>tokenHoldings :=
                            map_set (h_id h)
                              (h\<lparr>isStaked := False, stakingPlan := None,
                                  stakingStart := None, stakingEnd := None\<rparr>)
                              (tokenHoldings s)\<rparr> \<and>
                   getTokenHolding s' u p =
                     Some (h\<lparr>isStaked := False, stakingPlan := None,
                              stakingStart := None, stakingEnd := None\<rparr>)))"
proof (cases "getTokenHolding s u p")
  case None
  then show ?thesis by (auto simp: unstakeTokens_def unstake_def)
next
  case (Some h)
  let ?f = "\<lambda>x. x\<lparr>isStaked := False, stakingPlan := None, stakingStart := None, stakingEnd := None\<rparr>"
  have upd: "updateTokenHolding s (h_id h) ?f =
               Inr (?f h, s\<lparr>tokenHoldings := map_set (h_id h) (?f h) (tokenHoldings s)\<rparr>)"
    and get: "getTokenHolding (s\<lparr>tokenHoldings := map_set (h_id h) (?f h) (tokenHoldings s)\<rparr>) u p
               = Some (?f h)"
    using update_found(1,2)[OF wf Some, of ?f] by simp_all
  have fail: "\<forall>err. unstakeTokens s now u p = Inl err \<longrightarrow>
            fst (fst (unstake s now u p)) = 400 \<and> snd (unstake s now u p) = s"
    by (auto simp: unstake_def)
  show ?thesis
    using Some upd get fail by (auto simp: unstakeTokens_def)
qed

theorem unstakeTokens_gate_witness:
  "wf_holdings ledger0 \<and>
   getTokenHolding ledger0 1 2 = None \<and>
   unstakeTokens ledger0 5000 1 2 = Inl (HoldingNotFoundFor 1 2) \<and>
   unstakeTokens ledger0 5000 1 1 = Inl NotStaked \<and>
   unstakeTokens ledger0 (addDays 1000 30 - 1) 1 3 = Inl StakingPeriodNotOver \<and>
   snd (unstake ledger0 (addDays 1000 30 - 1) 1 3) = ledger0 \<and>
   (\<exists>h' s'. unstakeTokens ledger0 (addDays 1000 30) 1 3 = Inr (h', s') \<and>
      getTokenHolding s' 1 3 = Some h' \<and>
      \<not> isStaked h' \<and> stakingPlan h' = None \<and> stakingStart h' = None \<and> stakingEnd h' = None \<and>
      amount h' = 6)"
proof -
  have wf: "wf_holdings ledger0"
    by (simp add: wf_holdings_def keyed_def ledger0_def holdings0_def)
  have g1: "getTokenHolding ledger0 1 1 = Some (snd (holdings0 ! 0))"
    and g3: "getTokenHolding ledger0 1 3 = Some (snd (holdings0 ! 1))"
    and g2: "getTokenHolding ledger0 1 2 = None"
    by (simp_all add: getTokenHolding_def map_values_def ledger0_def holdings0_def)
  have st: "\<not> isStaked (snd (holdings0 ! 0))" "isStaked (snd (holdings0 ! 1))"
    "stakingEnd (snd (holdings0 ! 1)) = Some (addDays 1000 30)" "amount (snd (holdings0 ! 1)) = 6"
    by (simp_all add: holdings0_def)
  note t1 = unstakeTokens_gate[OF wf, of 1 2 5000]
    and t2 = unstakeTokens_gate[OF wf, of 1 1 5000]
    and t3 = unstakeTokens_gate[OF wf, of 1 3 "addDays 1000 30 - 1"]
    and t4 = unstakeTokens_gate[OF wf, of 1 3 "addDays 1000 30"]
  have a: "unstakeTokens ledger0 5000 1 2 = Inl (HoldingNotFoundFor 1 2)"
    using t1 g2 by blast
  have b: "unstakeTokens ledger0 5000 1 1 = Inl NotStaked"
    using t2 g1 st(1) by blast
  have c: "unstakeTokens ledger0 (addDays 1000 30 - 1) 1 3 = Inl StakingPeriodNotOver"
    using t3 g3 st(2,3) by (simp add: addDays_def)
  have d: "snd (unstake ledger0 (addDays 1000 30 - 1) 1 3) = ledger0"
    using t3 c by blast
  have e: "\<exists>h' s'. unstakeTokens ledger0 (addDays 1000 30) 1 3 = Inr (h', s') \<and>
      getTokenHolding s' 1 3 = Some h' \<and>
      \<not> isStaked h' \<and> stakingPlan h' = None \<and> stakingStart h' = None \<and> stakingEnd h' = None \<and>
      amount h' = 6"
    using t4 g3 st(2,3,4) by (simp add: addDays_def)
  from wf g2 a b c d e show ?thesis by blast
qed



section \<open>Portfolio valuation\<close>

lemma withPlayer_Inr:
  "withPlayer s hs = Inr r \<Longrightarrow>
   map fst r = hs \<and> list_all (\<lambda>x. getPlayer s (h_playerId (fst x)) = Some (snd x)) r"
  by (induction hs arbitrary: r) (auto split: option.splits sum.splits)



lemma withPlayers_Inr: "withPlayers s ts = Inr r \<Longrightarrow> map fst r = ts"
  by (induction ts arbitrary: r) (auto simp: Let_def split: option.splits sum.splits)








section \<open>Trading\<close>


lemma keyed_append:
  assumes "keyed idOf m c"
  shows "map_set c v m = m @ [(c, v)]"
proof -
  have "c \<notin> fst ` set m"
    using assms by (force simp: keyed_def list_all_iff)
  then show ?thesis by (rule map_set_absent)
qed

lemma find_append_new:
  "find P xs = None \<Longrightarrow> P x \<Longrightarrow> find P (xs @ [x]) = Some x"
  by (induction xs) (auto split: if_splits)

lemma find_append_old:
  "find P xs = Some y \<Longrightarrow> find P (xs @ zs) = Some y"
  by (induction xs) (auto split: if_splits)

subsection \<open>Known players under the writes of the handlers\<close>




subsection \<open>The common tail of the trading handlers: transaction, portfolio, snapshot\<close>

lemma createTransaction_effect:
  assumes "createTransaction s1 now u p ty amt price fromId = (tx, s2)"
  shows "s2 = s1\<lparr>transactionIdCounter := transactionIdCounter s1 + 1,
                  transactions := map_set (transactionIdCounter s1) tx (transactions s1)\<rparr>"
    and "t_id tx = transactionIdCounter s1" and "t_userId tx = u" and "t_playerId tx = p"
    and "t_type tx = ty" and "t_amount tx = amt" and "t_price tx = price"
    and "t_timestamp tx = Some now"
    and "fromPlayerId tx = (case fromId of None \<Rightarrow> None | Some f \<Rightarrow> if f = 0 then None else Some f)"
  using assms by (auto simp: createTransaction_def Let_def)





subsection \<open>Sell\<close>




subsection \<open>Buy\<close>






subsection \<open>Buy, then sell\<close>

text \<open>Unfolding the handlers on a concrete store.\<close>

lemmas trade_defs = buy_def sell_def getPlayer_def getUser_def getTokenHolding_def
  updateTokenHolding_def createTokenHolding_def createTransaction_def getUserPortfolio_def
  getUserTokens_def userHoldings_def getUserTransactions_def updatePortfolioHistory_def
  map_values_def timeOf_def Let_def



lemma sell_200D:
  assumes "fst (fst (sell s now u p amt price)) = 200"
  shows "u \<noteq> 0" "p \<noteq> 0" "amt \<noteq> 0" "price \<noteq> 0"
    "\<exists>h. getTokenHolding s u p = Some h \<and> \<not> isStaked h \<and> amt \<le> amount h"
  using assms by (auto simp: sell_def split: if_splits option.splits)



lemma sell_run:
  assumes wf: "wf_holdings s" and ok: "fst (fst (sell s now u p amt price)) = 200"
  shows "\<exists>tx h s'.
     getTokenHolding s u p = Some h \<and> \<not> isStaked h \<and> amt \<le> amount h \<and>
     sell s now u p amt price = ((200, Trade tx (h\<lparr>amount := amount h - amt\<rparr>)), s') \<and>
     getTokenHolding s' u p = Some (h\<lparr>amount := amount h - amt\<rparr>) \<and>
     tokenHoldings s' = map_set (h_id h) (h\<lparr>amount := amount h - amt\<rparr>) (tokenHoldings s) \<and>
     wf_holdings s' \<and>
     transactions s' = map_set (transactionIdCounter s) tx (transactions s) \<and>
     transactionIdCounter s' = transactionIdCounter s + 1 \<and>
     t_id tx = transactionIdCounter s \<and> t_type tx = ''sell'' \<and> t_userId tx = u \<and>
     t_playerId tx = p \<and> t_amount tx = amt \<and> t_price tx = price"
proof -
  note d = sell_200D[OF ok]
  from d(5) obtain h where g: "getTokenHolding s u p = Some h" and pre: "\<not> isStaked h" "amt \<le> amount h"
    by blast
  let ?f = "\<lambda>x. x\<lparr>amount := amount h - amt\<rparr>"
  define s1 where "s1 = s\<lparr>tokenHoldings := map_set (h_id h) (?f h) (tokenHoldings s)\<rparr>"
  have upd: "updateTokenHolding s (h_id h) ?f = Inr (?f h, s1)"
    and g1: "getTokenHolding s1 u p = Some (?f h)" and wf1: "wf_holdings s1"
    using update_found[OF wf g, of ?f] by (simp_all add: s1_def)
  obtain tx s2 where ct: "createTransaction s1 now u p ''sell'' amt price None = (tx, s2)"
    by (cases "createTransaction s1 now u p ''sell'' amt price None")
  note cte = createTransaction_effect[OF ct]
  have eq: "sell s now u p amt price =
      (case getUserPortfolio s2 u of
         Inl e \<Rightarrow> ((500, Message ''Failed to sell token''), s2)
       | Inr pf \<Rightarrow> ((200, Trade tx (?f h)), snd (updatePortfolioHistory s2 now u (totalValue pf))))"
    using d(1-4) pre by (simp add: sell_def g upd ct split: prod.splits sum.splits)
  with ok obtain pf where pf: "getUserPortfolio s2 u = Inr pf"
    by (cases "getUserPortfolio s2 u") auto
  define s3 where "s3 = snd (updatePortfolioHistory s2 now u (totalValue pf))"
  have res: "sell s now u p amt price = ((200, Trade tx (?f h)), s3)"
    by (simp add: eq pf s3_def)
  have hold3: "tokenHoldings s3 = tokenHoldings s1" "tokenHoldingIdCounter s3 = tokenHoldingIdCounter s1"
    "transactions s3 = transactions s2" "transactionIdCounter s3 = transactionIdCounter s2"
    by (simp_all add: s3_def updatePortfolioHistory_def Let_def cte(1))
  have "getTokenHolding s3 u p = Some (?f h)" "wf_holdings s3"
    using g1 wf1 by (simp_all add: getTokenHolding_def wf_holdings_def hold3 s1_def)
  moreover have "transactions s3 = map_set (transactionIdCounter s) tx (transactions s)"
    "transactionIdCounter s3 = transactionIdCounter s + 1"
    "tokenHoldings s3 = map_set (h_id h) (?f h) (tokenHoldings s)"
    by (simp_all add: hold3 cte(1) s1_def)
  ultimately show ?thesis
    using res g pre cte(2-7) by (simp add: s1_def)
qed




subsection \<open>Swap\<close>





section \<open>Achievement progress\<close>

lemma progress_kept_same:
  assumes "wf_userAchievements s" and "userAchievements s' = userAchievements s"
  shows "progress_kept s s'"
  using assms
  by (auto simp: progress_kept_def wf_userAchievements_def list_all_iff dest: keyedD(3))

lemma progress_kept_trans:
  assumes "progress_kept s s'" and "progress_kept s' s''"
  shows "progress_kept s s''"
  unfolding progress_kept_def list_all_iff
proof
  fix kv assume "kv \<in> set (userAchievements s)"
  with assms(1) obtain ua' where 1: "map_of (userAchievements s') (fst kv) = Some ua'"
    "ua_userId ua' = ua_userId (snd kv)" "ua_achievementId ua' = ua_achievementId (snd kv)"
    "progress (snd kv) \<le> progress ua'"
    by (auto simp: progress_kept_def list_all_iff split: option.splits)
  from 1(1) have "(fst kv, ua') \<in> set (userAchievements s')"
    by (rule map_of_SomeD)
  with assms(2) obtain ua'' where 2: "map_of (userAchievements s'') (fst kv) = Some ua''"
    "ua_userId ua'' = ua_userId ua'" "ua_achievementId ua'' = ua_achievementId ua'"
    "progress ua' \<le> progress ua''"
    by (fastforce simp: progress_kept_def list_all_iff split: option.splits)
  with 1 show "case map_of (userAchievements s'') (fst kv) of
          None \<Rightarrow> False
        | Some ua' \<Rightarrow> ua_userId ua' = ua_userId (snd kv) \<and>
            ua_achievementId ua' = ua_achievementId (snd kv) \<and> progress (snd kv) \<le> progress ua'"
    by simp
qed

lemma progress_kept_map_set:
  assumes k: "keyed ua_id (userAchievements s) c"
    and s': "userAchievements s' = map_set k v (userAchievements s)"
    and v: "\<And>ua0. map_of (userAchievements s) k = Some ua0 \<Longrightarrow>
              ua_userId v = ua_userId ua0 \<and> ua_achievementId v = ua_achievementId ua0 \<and>
              progress ua0 \<le> progress v"
  shows "progress_kept s s'"
  unfolding progress_kept_def list_all_iff
proof
  fix kv assume in_s: "kv \<in> set (userAchievements s)"
  then have look: "map_of (userAchievements s) (fst kv) = Some (snd kv)"
    using keyedD(3)[OF k, of "fst kv" "snd kv"] by simp
  show "case map_of (userAchievements s') (fst kv) of
          None \<Rightarrow> False
        | Some ua' \<Rightarrow> ua_userId ua' = ua_userId (snd kv) \<and>
            ua_achievementId ua' = ua_achievementId (snd kv) \<and> progress (snd kv) \<le> progress ua'"
  proof (cases "fst kv = k")
    case True
    with look v[of "snd kv"] show ?thesis
      by (simp add: s' map_of_map_set)
  next
    case False
    with look show ?thesis
      by (simp add: s' map_of_map_set)
  qed
qed

lemma findUserAchievement_found:
  assumes "wf_userAchievements s" and "findUserAchievement s u a = Some ua0"
  shows "map_of (userAchievements s) (ua_id ua0) = Some ua0"
    and "ua_userId ua0 = u" and "ua_achievementId ua0 = a"
  using assms keyed_lookup[of ua_id "userAchievements s" "userAchievementIdCounter s" ua0]
  by (auto simp: wf_userAchievements_def findUserAchievement_def dest: find_in_set)

lemma wf_userAchievements_counter:
  assumes "wf_userAchievements s"
  shows "wf_userAchievements (s\<lparr>userAchievementIdCounter := userAchievementIdCounter s + 1\<rparr>)"
  using assms by (auto simp: wf_userAchievements_def keyed_def list_all_iff)

lemma update_progress_kept:
  assumes wf: "wf_userAchievements s"
  shows "progress_kept s (snd (updateUserAchievementProgress s now u a prog)) \<and>
         wf_userAchievements (snd (updateUserAchievementProgress s now u a prog))"
proof (cases "findUserAchievement s u a")
  case None
  define s1 where "s1 = s\<lparr>userAchievementIdCounter := userAchievementIdCounter s + 1\<rparr>"
  have wf1: "wf_userAchievements s1"
    unfolding s1_def by (rule wf_userAchievements_counter[OF wf])
  have kept1: "progress_kept s s1"
    by (rule progress_kept_same[OF wf]) (simp add: s1_def)
  show ?thesis
  proof (cases "getAchievement s a")
    case none: None
    then have "snd (updateUserAchievementProgress s now u a prog) = s1"
      by (simp add: updateUserAchievementProgress_def None Let_def s1_def getAchievement_def)
    with wf1 kept1 show ?thesis by simp
  next
    case (Some ach)
    define ua where "ua =
       (if prog \<ge> requirementValue ach
        then \<lparr>ua_id = userAchievementIdCounter s, ua_userId = u, ua_achievementId = a,
               completed = True, progress = prog, completedAt = Some now, createdAt = Some now\<rparr>
        else \<lparr>ua_id = userAchievementIdCounter s, ua_userId = u, ua_achievementId = a,
               completed = False, progress = prog, completedAt = None, createdAt = Some now\<rparr>)"
    define s2 where "s2 = s1\<lparr>userAchievements :=
                              map_set (userAchievementIdCounter s) ua (userAchievements s)\<rparr>"
    have id: "ua_id ua = userAchievementIdCounter s" by (simp add: ua_def)
    have res: "snd (updateUserAchievementProgress s now u a prog) = s2"
      using Some
      by (simp add: updateUserAchievementProgress_def None Let_def s1_def s2_def ua_def
          getAchievement_def)
    have k: "keyed ua_id (userAchievements s) (userAchievementIdCounter s)"
      using wf by (simp add: wf_userAchievements_def)
    have "wf_userAchievements s2"
      using keyed_fresh[OF k id] by (simp add: wf_userAchievements_def s2_def s1_def)
    moreover have "progress_kept s s2"
    proof (rule progress_kept_map_set[OF k])
      show "userAchievements s2 = map_set (userAchievementIdCounter s) ua (userAchievements s)"
        by (simp add: s2_def)
      fix ua0 assume "map_of (userAchievements s) (userAchievementIdCounter s) = Some ua0"
      then have "(userAchievementIdCounter s, ua0) \<in> set (userAchievements s)"
        by (rule map_of_SomeD)
      with keyedD(2)[OF k this] show "ua_userId ua = ua_userId ua0 \<and>
          ua_achievementId ua = ua_achievementId ua0 \<and> progress ua0 \<le> progress ua"
        by simp
    qed
    ultimately show ?thesis by (simp add: res)
  qed
next
  case (Some ua0)
  note fnd = findUserAchievement_found[OF wf Some]
  have k: "keyed ua_id (userAchievements s) (userAchievementIdCounter s)"
    using wf by (simp add: wf_userAchievements_def)
  have same: "progress_kept s s" by (rule progress_kept_same[OF wf]) simp
  show ?thesis
  proof (cases "getAchievement s a")
    case None
    then have "snd (updateUserAchievementProgress s now u a prog) = s"
      by (simp add: updateUserAchievementProgress_def Some)
    with wf same show ?thesis by simp
  next
    case ach: (Some ach)
    show ?thesis
    proof (cases "prog > progress ua0")
      case False
      then have "snd (updateUserAchievementProgress s now u a prog) = s"
        by (simp add: updateUserAchievementProgress_def Some ach)
      with wf same show ?thesis by simp
    next
      case True
      define ua2 where "ua2 =
         (if \<not> completed ua0 \<and> prog \<ge> requirementValue ach
          then ua0\<lparr>progress := prog, completed := True, completedAt := Some now\<rparr>
          else ua0\<lparr>progress := prog\<rparr>)"
      define s2 where "s2 = s\<lparr>userAchievements := map_set (ua_id ua0) ua2 (userAchievements s)\<rparr>"
      have id: "ua_id ua2 = ua_id ua0" "ua_userId ua2 = ua_userId ua0"
        "ua_achievementId ua2 = ua_achievementId ua0" "progress ua2 = prog"
        by (simp_all add: ua2_def)
      have res: "snd (updateUserAchievementProgress s now u a prog) = s2"
        using True
        by (simp add: updateUserAchievementProgress_def Some ach Let_def s2_def ua2_def)
      have "wf_userAchievements s2"
        using keyed_replace[OF k fnd(1) id(1)] by (simp add: wf_userAchievements_def s2_def)
      moreover have "progress_kept s s2"
      proof (rule progress_kept_map_set[OF k])
        show "userAchievements s2 = map_set (ua_id ua0) ua2 (userAchievements s)"
          by (simp add: s2_def)
        fix x assume "map_of (userAchievements s) (ua_id ua0) = Some x"
        with fnd(1) have "x = ua0" by simp
        with True id show "ua_userId ua2 = ua_userId x \<and>
          ua_achievementId ua2 = ua_achievementId x \<and> progress x \<le> progress ua2"
          by simp
      qed
      ultimately show ?thesis by (simp add: res)
    qed
  qed
qed

lemma achievementLoop_kept:
  assumes "wf_userAchievements s"
  shows "progress_kept s (snd (achievementLoop s now u txs hs pf as updated)) \<and>
         wf_userAchievements (snd (achievementLoop s now u txs hs pf as updated))"
  using assms
proof (induction as arbitrary: s updated)
  case Nil
  then show ?case by (simp add: progress_kept_same)
next
  case (Cons a as)
  show ?case
  proof (cases "computeProgress (requirement a) txs hs pf")
    case None
    with Cons show ?thesis by simp
  next
    case (Some prog)
    obtain r s1 where upd: "updateUserAchievementProgress s now u (a_id a) prog = (r, s1)"
      by (cases "updateUserAchievementProgress s now u (a_id a) prog")
    from update_progress_kept[OF Cons.prems, of now u "a_id a" prog]
    have s1: "progress_kept s s1" "wf_userAchievements s1" by (simp_all add: upd)
    show ?thesis
    proof (cases r)
      case (Inl e)
      with s1 show ?thesis by (simp add: Some upd)
    next
      case (Inr ua)
      from Cons.IH[OF s1(2), of "updated @ [ua]"] s1(1)
      show ?thesis
        by (auto simp: Some upd Inr intro: progress_kept_trans)
    qed
  qed
qed

lemma achievementLoop_keptD:
  assumes "wf_userAchievements s" and "achievementLoop s now u txs hs pf as updated = (r, s')"
  shows "progress_kept s s'" and "wf_userAchievements s'"
  using achievementLoop_kept[OF assms(1), of now u txs hs pf as updated] assms(2) by simp_all

lemma checkAndUpdateAchievements_kept:
  assumes "wf_userAchievements s"
  shows "progress_kept s (snd (checkAndUpdateAchievements s now u)) \<and>
         wf_userAchievements (snd (checkAndUpdateAchievements s now u))"
proof -
  have same: "progress_kept s s" by (rule progress_kept_same[OF assms]) simp
  show ?thesis
    using assms same
    by (auto simp: checkAndUpdateAchievements_def split: sum.splits prod.splits
        dest: achievementLoop_keptD[OF assms])
qed

lemma createMissing_kept:
  assumes "wf_userAchievements s"
  shows "progress_kept s (snd (createMissing s now u as uam)) \<and>
         wf_userAchievements (snd (createMissing s now u as uam))"
  using assms
proof (induction as arbitrary: s uam)
  case Nil
  then show ?case by (simp add: progress_kept_same)
next
  case (Cons a as)
  define ua where "ua = \<lparr>ua_id = userAchievementIdCounter s, ua_userId = u,
                ua_achievementId = a_id a, completed = False, progress = 0,
                completedAt = None, createdAt = Some now\<rparr>"
  define s1 where "s1 = s\<lparr>userAchievementIdCounter := userAchievementIdCounter s + 1,
                 userAchievements := map_set (ua_id ua) ua (userAchievements s)\<rparr>"
  have k: "keyed ua_id (userAchievements s) (userAchievementIdCounter s)"
    using Cons.prems by (simp add: wf_userAchievements_def)
  have id: "ua_id ua = userAchievementIdCounter s" by (simp add: ua_def)
  have wf1: "wf_userAchievements s1"
    using keyed_fresh[OF k id] by (simp add: wf_userAchievements_def s1_def id)
  have kept1: "progress_kept s s1"
  proof (rule progress_kept_map_set[OF k])
    show "userAchievements s1 = map_set (userAchievementIdCounter s) ua (userAchievements s)"
      by (simp add: s1_def id)
    fix ua0 assume "map_of (userAchievements s) (userAchievementIdCounter s) = Some ua0"
    then have "(userAchievementIdCounter s, ua0) \<in> set (userAchievements s)"
      by (rule map_of_SomeD)
    with keyedD(2)[OF k this] show "ua_userId ua = ua_userId ua0 \<and>
          ua_achievementId ua = ua_achievementId ua0 \<and> progress ua0 \<le> progress ua"
      by simp
  qed
  have step: "createMissing s now u (a # as) uam = createMissing s1 now u as (map_set (a_id a) ua uam)"
    by (simp add: Let_def s1_def ua_def)
  from Cons.IH[OF wf1, of "map_set (a_id a) ua uam"] kept1
  show ?case unfolding step by (auto intro: progress_kept_trans)
qed

lemma createMissing_keptD:
  assumes "wf_userAchievements s" and "createMissing s now u as uam = (r, s')"
  shows "progress_kept s s'" and "wf_userAchievements s'"
  using createMissing_kept[OF assms(1), of now u as uam] assms(2) by simp_all

lemma getUserAchievements_kept:
  assumes "wf_userAchievements s"
  shows "progress_kept s (snd (getUserAchievements s now u)) \<and>
         wf_userAchievements (snd (getUserAchievements s now u))"
  by (auto simp: getUserAchievements_def Let_def split: sum.splits prod.splits
      dest: createMissing_keptD[OF assms])

lemma getUserAchievements_keptD:
  assumes "wf_userAchievements s" and "getUserAchievements s now u = (r, s')"
  shows "progress_kept s s'" and "wf_userAchievements s'"
  using getUserAchievements_kept[OF assms(1), of now u] assms(2) by simp_all

lemma checkAndUpdateAchievements_keptD:
  assumes "wf_userAchievements s" and "checkAndUpdateAchievements s now u = (r, s')"
  shows "progress_kept s s'" and "wf_userAchievements s'"
  using checkAndUpdateAchievements_kept[OF assms(1), of now u] assms(2) by simp_all

subsection \<open>The trading and staking handlers do not write user achievements\<close>

lemmas write_defs = updateTokenHolding_def createTokenHolding_def createTransaction_def
  updatePortfolioHistory_def stakeTokens_def unstakeTokens_def Let_def

lemma buy_userAchievements:
  "userAchievements (snd (buy s now u p amt price)) = userAchievements s \<and>
   userAchievementIdCounter (snd (buy s now u p amt price)) = userAchievementIdCounter s"
  by (simp add: buy_def write_defs split: option.splits sum.splits prod.splits)

lemma sell_userAchievements:
  "userAchievements (snd (sell s now u p amt price)) = userAchievements s \<and>
   userAchievementIdCounter (snd (sell s now u p amt price)) = userAchievementIdCounter s"
  by (simp add: sell_def write_defs split: option.splits sum.splits prod.splits)

lemma swap_userAchievements:
  "swap s now u f t amt = Some (r, s') \<Longrightarrow>
   userAchievements s' = userAchievements s \<and>
   userAchievementIdCounter s' = userAchievementIdCounter s"
  by (auto simp: swap_def write_defs
      split: if_splits option.splits sum.splits prod.splits quotient.splits)

lemma stake_userAchievements:
  "userAchievements (snd (stake s now u p amt planId)) = userAchievements s \<and>
   userAchievementIdCounter (snd (stake s now u p amt planId)) = userAchievementIdCounter s"
  by (simp add: stake_def write_defs split: option.splits sum.splits prod.splits)

lemma unstake_userAchievements:
  "userAchievements (snd (unstake s now u p)) = userAchievements s \<and>
   userAchievementIdCounter (snd (unstake s now u p)) = userAchievementIdCounter s"
  by (simp add: unstake_def write_defs split: option.splits sum.splits prod.splits)

lemma kept_of_same:
  assumes "wf_userAchievements s" and "userAchievements s' = userAchievements s \<and>
     userAchievementIdCounter s' = userAchievementIdCounter s"
  shows "progress_kept s s' \<and> wf_userAchievements s'"
  using assms progress_kept_same[of s s'] by (simp add: wf_userAchievements_def)

lemma handle_kept:
  assumes wf: "wf_userAchievements s" and h: "handle s r = Some s'"
  shows "progress_kept s s' \<and> wf_userAchievements s'"
proof (cases r)
  case (Pair now req)
  show ?thesis
  proof (cases req)
    case (Buy u p a pr)
    with h Pair kept_of_same[OF wf buy_userAchievements[of s now u p a pr]]
    show ?thesis by auto
  next
    case (Sell u p a pr)
    with h Pair kept_of_same[OF wf sell_userAchievements[of s now u p a pr]]
    show ?thesis by auto
  next
    case (Swap u f t a)
    with h Pair obtain resp where "swap s now u f t a = Some (resp, s')"
      by auto
    from kept_of_same[OF wf swap_userAchievements[OF this]] show ?thesis .
  next
    case (Stake u p a pl)
    with h Pair kept_of_same[OF wf stake_userAchievements[of s now u p a pl]]
    show ?thesis by auto
  next
    case (Unstake u p)
    with h Pair kept_of_same[OF wf unstake_userAchievements[of s now u p]]
    show ?thesis by auto
  next
    case (GetUserAchievements param)
    have same: "progress_kept s s" by (rule progress_kept_same[OF wf]) simp
    from h Pair GetUserAchievements wf same
    show ?thesis
      by (auto simp: userAchievementsRoute_def split: option.splits sum.splits prod.splits
          dest: getUserAchievements_keptD[OF wf])
  next
    case (Check param)
    have same: "progress_kept s s" by (rule progress_kept_same[OF wf]) simp
    from h Pair Check wf same
    show ?thesis
      by (auto simp: checkRoute_def Let_def split: option.splits sum.splits prod.splits
          dest: checkAndUpdateAchievements_keptD[OF wf])
  qed
qed

lemma run_kept:
  assumes "wf_userAchievements s" and "run s reqs = Some s'"
  shows "progress_kept s s' \<and> wf_userAchievements s'"
  using assms
proof (induction reqs arbitrary: s)
  case Nil
  then show ?case by (simp add: progress_kept_same)
next
  case (Cons r reqs)
  from Cons.prems(2) obtain s1 where h: "handle s r = Some s1" and rest: "run s1 reqs = Some s'"
    by (auto split: option.splits)
  from handle_kept[OF Cons.prems(1) h] have 1: "progress_kept s s1" "wf_userAchievements s1"
    by simp_all
  from Cons.IH[OF 1(2) rest] 1(1) show ?case
    by (auto intro: progress_kept_trans)
qed

subsection \<open>Progress never falls\<close>

lemmas check_defs = checkRoute_def checkAndUpdateAchievements_def getAchievements_def
  getAchievement_def findUserAchievement_def updateUserAchievementProgress_def
  computeProgress_def

lemma ledger0_sel:
  "users ledger0 = users0" "players ledger0 = players0" "tokenHoldings ledger0 = holdings0"
  "transactions ledger0 = []" "portfolioHistoryMap ledger0 = []" "stakingPlans ledger0 = plans0"
  "achievements ledger0 = achievements0" "userAchievements ledger0 = []"
  "tokenHoldingIdCounter ledger0 = 3" "transactionIdCounter ledger0 = 1"
  "portfolioHistoryIdCounter ledger0 = 1" "userAchievementIdCounter ledger0 = 1"
  by (simp_all add: ledger0_def)

lemma ledger1_sel:
  "users ledger1 = users0" "players ledger1 = players0" "tokenHoldings ledger1 = holdings0"
  "transactions ledger1 = []" "portfolioHistoryMap ledger1 = []"
  "tokenHoldingIdCounter ledger1 = 3" "transactionIdCounter ledger1 = 1"
  "portfolioHistoryIdCounter ledger1 = 1"
  by (simp_all add: ledger1_def check_defs trade_defs ledger0_sel holdings0_def players0_def
      users0_def achievements0_def)

text \<open>
  C2. The stored progress of every user-achievement record is monotonically non-decreasing.
  \<open>updateUserAchievementProgress\<close> leaves the store as it is when the newly computed value
  does not strictly exceed the stored one, and writes the new value when it does; a call of
  \<open>checkAndUpdateAchievements\<close> keeps every record with at least its progress; and so does
  every run of requests (buy, sell, swap, stake, unstake, reading the user's achievements,
  checking them), whatever the recomputed numbers are.
\<close>

theorem progress_never_decreases:
  assumes wf: "wf_userAchievements s"
  shows "progress_kept s (snd (updateUserAchievementProgress s now u a prog)) \<and>
         (\<forall>ua0. findUserAchievement s u a = Some ua0 \<and> prog \<le> progress ua0 \<longrightarrow>
            snd (updateUserAchievementProgress s now u a prog) = s) \<and>
         (\<forall>ua0. findUserAchievement s u a = Some ua0 \<and> progress ua0 < prog \<and>
               getAchievement s a \<noteq> None \<longrightarrow>
            (\<exists>ua'. map_of (userAchievements (snd (updateUserAchievementProgress s now u a prog)))
                     (ua_id ua0) = Some ua' \<and> progress ua' = prog)) \<and>
         progress_kept s (snd (checkAndUpdateAchievements s now u)) \<and>
         (\<forall>reqs s'. run s reqs = Some s' \<longrightarrow> progress_kept s s')"
proof (intro conjI allI impI)
  show "progress_kept s (snd (updateUserAchievementProgress s now u a prog))"
    using update_progress_kept[OF wf] by simp
  show "progress_kept s (snd (checkAndUpdateAchievements s now u))"
    using checkAndUpdateAchievements_kept[OF wf] by simp
next
  fix ua0 assume "findUserAchievement s u a = Some ua0 \<and> prog \<le> progress ua0"
  then show "snd (updateUserAchievementProgress s now u a prog) = s"
    by (simp add: updateUserAchievementProgress_def split: option.splits)
next
  fix ua0 assume a: "findUserAchievement s u a = Some ua0 \<and> progress ua0 < prog \<and>
               getAchievement s a \<noteq> None"
  then obtain ach where ach: "getAchievement s a = Some ach" by auto
  define ua2 where "ua2 =
     (if \<not> completed ua0 \<and> prog \<ge> requirementValue ach
      then ua0\<lparr>progress := prog, completed := True, completedAt := Some now\<rparr>
      else ua0\<lparr>progress := prog\<rparr>)"
  have "snd (updateUserAchievementProgress s now u a prog) =
          s\<lparr>userAchievements := map_set (ua_id ua0) ua2 (userAchievements s)\<rparr>"
    using a by (simp add: updateUserAchievementProgress_def ach Let_def ua2_def)
  moreover have "progress ua2 = prog" by (simp add: ua2_def)
  ultimately show "\<exists>ua'. map_of (userAchievements (snd (updateUserAchievementProgress s now u a prog)))
                     (ua_id ua0) = Some ua' \<and> progress ua' = prog"
    by (simp add: map_of_map_set)
next
  fix reqs s' assume "run s reqs = Some s'"
  from run_kept[OF wf this] show "progress_kept s s'" by simp
qed

theorem progress_never_decreases_witness:
  "wf_userAchievements ledger1 \<and>
   map_option progress (map_of (userAchievements ledger1) 5) = Some 35 \<and>
   (\<exists>pf. getUserPortfolio (snd (sell ledger1 8 1 1 4 2)) 1 = Inr pf \<and> totalValue pf = 27) \<and>
   (\<exists>s' ua'. run ledger1 [(8, Sell 1 1 4 2), (9, Check (Some 1))] = Some s' \<and>
      progress_kept ledger1 s' \<and>
      map_of (userAchievements s') 5 = Some ua' \<and> 35 \<le> progress ua')"
proof -
  have wf0: "wf_userAchievements ledger0"
    by (simp add: wf_userAchievements_def keyed_def ledger0_def)
  have "handle ledger0 (7, Check (Some 1)) = Some ledger1"
    by (simp add: ledger1_def)
  from handle_kept[OF wf0 this] have wf: "wf_userAchievements ledger1"
    by simp
  have "map_option progress (map_of (userAchievements ledger1) 5) = Some 35"
    by (simp add: ledger1_def check_defs trade_defs ledger0_sel holdings0_def players0_def
        users0_def achievements0_def)
  then obtain ua where ua: "map_of (userAchievements ledger1) 5 = Some ua" "progress ua = 35"
    by auto
  have pf: "\<exists>pf. getUserPortfolio (snd (sell ledger1 8 1 1 4 2)) 1 = Inr pf \<and> totalValue pf = 27"
    by (simp add: trade_defs ledger1_sel holdings0_def players0_def)
  define s' where "s' = snd (checkRoute (snd (sell ledger1 8 1 1 4 2)) 9 (Some 1))"
  have r: "run ledger1 [(8, Sell 1 1 4 2), (9, Check (Some 1))] = Some s'"
    by (simp add: s'_def)
  from progress_never_decreases[OF wf] r have kept: "progress_kept ledger1 s'"
    by blast
  from ua(1) have "(5, ua) \<in> set (userAchievements ledger1)"
    by (rule map_of_SomeD)
  with kept ua(2) have "\<exists>ua'. map_of (userAchievements s') 5 = Some ua' \<and> 35 \<le> progress ua'"
    by (fastforce simp: progress_kept_def list_all_iff split: option.splits)
  with wf ua pf r kept show ?thesis by auto
qed

section \<open>Holdings sold out\<close>

lemma withPlayer_players:
  assumes "players s' = players s"
  shows "withPlayer s' hs = withPlayer s hs"
proof -
  have gp: "\<And>i. getPlayer s' i = getPlayer s i"
    by (simp add: getPlayer_def assms)
  show ?thesis by (induction hs) (simp_all add: gp split: option.splits)
qed

lemma withPlayers_players:
  assumes "players s' = players s"
  shows "withPlayers s' ts = withPlayers s ts"
proof -
  have gp: "\<And>i. getPlayer s' i = getPlayer s i"
    by (simp add: getPlayer_def assms)
  show ?thesis by (induction ts) (simp_all add: gp Let_def split: option.splits sum.splits)
qed

lemma sell_ok_portfolio:
  assumes wf: "wf_holdings s" and ok: "fst (fst (sell s now u p amt price)) = 200"
  shows "\<exists>toks txs pf.
           getUserTokens (snd (sell s now u p amt price)) u = Inr toks \<and>
           getUserTransactions (snd (sell s now u p amt price)) u = Inr txs \<and>
           getUserPortfolio (snd (sell s now u p amt price)) u = Inr pf"
proof -
  note d = sell_200D[OF ok]
  from d(5) obtain h where g: "getTokenHolding s u p = Some h" and pre: "\<not> isStaked h" "amt \<le> amount h"
    by blast
  let ?f = "\<lambda>x. x\<lparr>amount := amount h - amt\<rparr>"
  define s1 where "s1 = s\<lparr>tokenHoldings := map_set (h_id h) (?f h) (tokenHoldings s)\<rparr>"
  have upd: "updateTokenHolding s (h_id h) ?f = Inr (?f h, s1)"
    using update_found(1)[OF wf g, of ?f] by (simp add: s1_def)
  obtain tx s2 where ct: "createTransaction s1 now u p ''sell'' amt price None = (tx, s2)"
    by (cases "createTransaction s1 now u p ''sell'' amt price None")
  have eq: "sell s now u p amt price =
      (case getUserPortfolio s2 u of
         Inl e \<Rightarrow> ((500, Message ''Failed to sell token''), s2)
       | Inr pf \<Rightarrow> ((200, Trade tx (?f h)), snd (updatePortfolioHistory s2 now u (totalValue pf))))"
    using d(1-4) pre by (simp add: sell_def g upd ct split: prod.splits sum.splits)
  with ok obtain pf where pf: "getUserPortfolio s2 u = Inr pf"
    by (cases "getUserPortfolio s2 u") auto
  then obtain toks txs where t2: "getUserTokens s2 u = Inr toks" "getUserTransactions s2 u = Inr txs"
    by (auto simp: getUserPortfolio_def split: sum.splits)
  define s3 where "s3 = snd (updatePortfolioHistory s2 now u (totalValue pf))"
  have res: "snd (sell s now u p amt price) = s3"
    by (simp add: eq pf s3_def)
  have fr: "tokenHoldings s3 = tokenHoldings s2" "players s3 = players s2"
    "transactions s3 = transactions s2"
    by (simp_all add: s3_def updatePortfolioHistory_def Let_def)
  have t3: "getUserTokens s3 u = Inr toks" "getUserTransactions s3 u = Inr txs"
    using t2 withPlayer_players[OF fr(2)] withPlayers_players[OF fr(2)]
    by (simp_all add: getUserTokens_def userHoldings_def getUserTransactions_def fr)
  then have "\<exists>pf. getUserPortfolio s3 u = Inr pf"
    by (simp add: getUserPortfolio_def split: prod.splits)
  with t3 show ?thesis by (simp add: res)
qed

lemma userHoldings_replace:
  assumes wf: "wf_holdings s" and g: "getTokenHolding s u p = Some h"
    and keep: "h_userId h' = h_userId h"
  shows "userHoldings (s\<lparr>tokenHoldings := map_set (h_id h) h' (tokenHoldings s)\<rparr>) u' =
           map (\<lambda>x. if h_id x = h_id h then h' else x) (userHoldings s u')"
proof -
  note fnd = getTokenHolding_found[OF wf g]
  have k: "keyed h_id (tokenHoldings s) (tokenHoldingIdCounter s)"
    using wf by (simp add: wf_holdings_def)
  have vals: "map_values (map_set (h_id h) h' (tokenHoldings s)) =
      map (\<lambda>x. if h_id x = h_id h then h' else x) (map_values (tokenHoldings s))"
    by (rule keyed_values_replace[OF k fnd(1)])
  have same: "\<And>x. x \<in> set (map_values (tokenHoldings s)) \<Longrightarrow> h_id x = h_id h \<Longrightarrow> x = h"
    using keyed_lookup[OF k] fnd(1) by (metis option.inject)
  have "filter (\<lambda>x. h_userId x = u') (map (\<lambda>x. if h_id x = h_id h then h' else x) xs) =
        map (\<lambda>x. if h_id x = h_id h then h' else x) (filter (\<lambda>x. h_userId x = u') xs)"
    if "set xs \<subseteq> set (map_values (tokenHoldings s))" for xs
    using that by (induction xs) (use same keep in auto)
  then show ?thesis
    by (simp add: userHoldings_def vals)
qed

subsection \<open>What a progress update leaves behind for the next lookup of a record\<close>

lemma updateUserAchievementProgress_achievements:
  "achievements (snd (updateUserAchievementProgress s now u a prog)) = achievements s"
  by (simp add: updateUserAchievementProgress_def getAchievement_def Let_def
      split: option.splits)

lemma update_found_le:
  assumes wf: "wf_userAchievements s" and f: "findUserAchievement s u' a' = Some ua"
  shows "\<exists>ua'. findUserAchievement (snd (updateUserAchievementProgress s now u a prog)) u' a' = Some ua' \<and>
               progress ua \<le> progress ua'"
proof -
  have k: "keyed ua_id (userAchievements s) (userAchievementIdCounter s)"
    using wf by (simp add: wf_userAchievements_def)
  let ?P = "\<lambda>x. ua_userId x = u' \<and> ua_achievementId x = a'"
  from f have f': "find ?P (map_values (userAchievements s)) = Some ua"
    by (simp add: findUserAchievement_def)
  show ?thesis
  proof (cases "findUserAchievement s u a")
    case None
    have "userAchievements (snd (updateUserAchievementProgress s now u a prog)) = userAchievements s \<or>
        (\<exists>v. userAchievements (snd (updateUserAchievementProgress s now u a prog)) =
          userAchievements s @ [(userAchievementIdCounter s, v)])"
    proof (cases "getAchievement s a")
      case none: None
      then show ?thesis
        by (simp add: updateUserAchievementProgress_def None Let_def getAchievement_def)
    next
      case (Some ac)
      define v where "v =
       (if prog \<ge> requirementValue ac
        then \<lparr>ua_id = userAchievementIdCounter s, ua_userId = u, ua_achievementId = a,
               completed = True, progress = prog, completedAt = Some now, createdAt = Some now\<rparr>
        else \<lparr>ua_id = userAchievementIdCounter s, ua_userId = u, ua_achievementId = a,
               completed = False, progress = prog, completedAt = None, createdAt = Some now\<rparr>)"
      have "userAchievements (snd (updateUserAchievementProgress s now u a prog)) =
          map_set (userAchievementIdCounter s) v (userAchievements s)"
        using Some by (simp add: updateUserAchievementProgress_def None Let_def v_def
            getAchievement_def)
      then show ?thesis by (simp add: keyed_append[OF k])
    qed
    then have "findUserAchievement (snd (updateUserAchievementProgress s now u a prog)) u' a' = Some ua"
    proof
      assume "userAchievements (snd (updateUserAchievementProgress s now u a prog)) = userAchievements s"
      with f show ?thesis by (simp add: findUserAchievement_def)
    next
      assume "\<exists>v. userAchievements (snd (updateUserAchievementProgress s now u a prog)) =
          userAchievements s @ [(userAchievementIdCounter s, v)]"
      then obtain v where "userAchievements (snd (updateUserAchievementProgress s now u a prog)) =
          userAchievements s @ [(userAchievementIdCounter s, v)]"
        by blast
      with f' show ?thesis
        by (simp add: findUserAchievement_def map_values_def find_append_old)
    qed
    then show ?thesis by simp
  next
    case (Some ua0)
    note fnd = findUserAchievement_found[OF wf Some]
    have "userAchievements (snd (updateUserAchievementProgress s now u a prog)) = userAchievements s \<or>
        (\<exists>v. ua_userId v = ua_userId ua0 \<and> ua_achievementId v = ua_achievementId ua0 \<and>
             progress ua0 \<le> progress v \<and>
             userAchievements (snd (updateUserAchievementProgress s now u a prog)) =
               map_set (ua_id ua0) v (userAchievements s))"
    proof (cases "getAchievement s a")
      case None
      then show ?thesis by (simp add: updateUserAchievementProgress_def Some)
    next
      case ac: (Some ac)
      show ?thesis
      proof (cases "prog > progress ua0")
        case False
        then show ?thesis by (simp add: updateUserAchievementProgress_def Some ac)
      next
        case True
        define v where "v =
           (if \<not> completed ua0 \<and> prog \<ge> requirementValue ac
            then ua0\<lparr>progress := prog, completed := True, completedAt := Some now\<rparr>
            else ua0\<lparr>progress := prog\<rparr>)"
        have "ua_userId v = ua_userId ua0 \<and> ua_achievementId v = ua_achievementId ua0 \<and>
             progress ua0 \<le> progress v"
          using True by (simp add: v_def)
        moreover have "userAchievements (snd (updateUserAchievementProgress s now u a prog)) =
               map_set (ua_id ua0) v (userAchievements s)"
          using True by (simp add: updateUserAchievementProgress_def Some ac Let_def v_def)
        ultimately show ?thesis by blast
      qed
    qed
    then show ?thesis
    proof
      assume "userAchievements (snd (updateUserAchievementProgress s now u a prog)) = userAchievements s"
      with f show ?thesis by (simp add: findUserAchievement_def)
    next
      assume "\<exists>v. ua_userId v = ua_userId ua0 \<and> ua_achievementId v = ua_achievementId ua0 \<and>
             progress ua0 \<le> progress v \<and>
             userAchievements (snd (updateUserAchievementProgress s now u a prog)) =
               map_set (ua_id ua0) v (userAchievements s)"
      then obtain v where v: "ua_userId v = ua_userId ua0" "ua_achievementId v = ua_achievementId ua0"
        "progress ua0 \<le> progress v"
        and eq: "userAchievements (snd (updateUserAchievementProgress s now u a prog)) =
               map_set (ua_id ua0) v (userAchievements s)"
        by blast
      let ?g = "\<lambda>x. if ua_id x = ua_id ua0 then v else x"
      have vals: "map_values (map_set (ua_id ua0) v (userAchievements s)) =
          map ?g (map_values (userAchievements s))"
        by (rule keyed_values_replace[OF k fnd(1)])
      have same: "\<And>x. x \<in> set (map_values (userAchievements s)) \<Longrightarrow> ua_id x = ua_id ua0 \<Longrightarrow> x = ua0"
        using keyed_lookup[OF k] fnd(1) by (metis option.inject)
      have "find ?P (map ?g (map_values (userAchievements s))) =
              map_option ?g (find ?P (map_values (userAchievements s)))"
        by (rule find_map_same) (use same v in auto)
      then have found: "findUserAchievement (snd (updateUserAchievementProgress s now u a prog)) u' a'
          = Some (?g ua)"
        by (simp add: findUserAchievement_def eq vals f')
      have "ua \<in> set (map_values (userAchievements s))"
        using f' by (auto dest: find_in_set)
      with same v(3) have "progress ua \<le> progress (?g ua)" by auto
      with found show ?thesis by blast
    qed
  qed
qed

lemma update_reaches:
  assumes wf: "wf_userAchievements s" and ach: "getAchievement s a \<noteq> None"
  shows "\<exists>r ua'. fst (updateUserAchievementProgress s now u a prog) = Inr r \<and>
           findUserAchievement (snd (updateUserAchievementProgress s now u a prog)) u a = Some ua' \<and>
           prog \<le> progress ua'"
proof -
  from ach obtain ac where ac: "getAchievement s a = Some ac" by auto
  have k: "keyed ua_id (userAchievements s) (userAchievementIdCounter s)"
    using wf by (simp add: wf_userAchievements_def)
  show ?thesis
  proof (cases "findUserAchievement s u a")
    case None
    define v where "v =
       (if prog \<ge> requirementValue ac
        then \<lparr>ua_id = userAchievementIdCounter s, ua_userId = u, ua_achievementId = a,
               completed = True, progress = prog, completedAt = Some now, createdAt = Some now\<rparr>
        else \<lparr>ua_id = userAchievementIdCounter s, ua_userId = u, ua_achievementId = a,
               completed = False, progress = prog, completedAt = None, createdAt = Some now\<rparr>)"
    have v: "ua_userId v = u" "ua_achievementId v = a" "progress v = prog"
      by (simp_all add: v_def)
    have r: "fst (updateUserAchievementProgress s now u a prog) = Inr v"
      and eq: "userAchievements (snd (updateUserAchievementProgress s now u a prog)) =
          map_set (userAchievementIdCounter s) v (userAchievements s)"
      using ac by (simp_all add: updateUserAchievementProgress_def None Let_def v_def
          getAchievement_def)
    have "findUserAchievement (snd (updateUserAchievementProgress s now u a prog)) u a = Some v"
      using None v
      by (simp add: findUserAchievement_def eq keyed_append[OF k] map_values_def find_append_new)
    with r v(3) show ?thesis by simp
  next
    case (Some ua0)
    from update_found_le[OF wf Some, of now u a prog] obtain ua' where
      1: "findUserAchievement (snd (updateUserAchievementProgress s now u a prog)) u a = Some ua'"
      "progress ua0 \<le> progress ua'"
      by blast
    note fnd = findUserAchievement_found[OF wf Some]
    show ?thesis
    proof (cases "prog > progress ua0")
      case False
      then have "fst (updateUserAchievementProgress s now u a prog) = Inr ua0"
        by (simp add: updateUserAchievementProgress_def Some ac)
      with 1 False show ?thesis by simp
    next
      case True
      define v where "v =
         (if \<not> completed ua0 \<and> prog \<ge> requirementValue ac
          then ua0\<lparr>progress := prog, completed := True, completedAt := Some now\<rparr>
          else ua0\<lparr>progress := prog\<rparr>)"
      have v: "ua_id v = ua_id ua0" "ua_userId v = u" "ua_achievementId v = a" "progress v = prog"
        using fnd by (simp_all add: v_def)
      have r: "fst (updateUserAchievementProgress s now u a prog) = Inr v"
        and eq: "userAchievements (snd (updateUserAchievementProgress s now u a prog)) =
            map_set (ua_id ua0) v (userAchievements s)"
        using True by (simp_all add: updateUserAchievementProgress_def Some ac Let_def v_def)
      let ?g = "\<lambda>x. if ua_id x = ua_id ua0 then v else x"
      let ?P = "\<lambda>x. ua_userId x = u \<and> ua_achievementId x = a"
      have vals: "map_values (map_set (ua_id ua0) v (userAchievements s)) =
          map ?g (map_values (userAchievements s))"
        by (rule keyed_values_replace[OF k fnd(1)])
      have same: "\<And>x. x \<in> set (map_values (userAchievements s)) \<Longrightarrow> ua_id x = ua_id ua0 \<Longrightarrow> x = ua0"
        using keyed_lookup[OF k] fnd(1) by (metis option.inject)
      have "find ?P (map ?g (map_values (userAchievements s))) =
              map_option ?g (find ?P (map_values (userAchievements s)))"
        by (rule find_map_same) (use same v fnd in auto)
      then have "findUserAchievement (snd (updateUserAchievementProgress s now u a prog)) u a = Some v"
        using Some by (simp add: findUserAchievement_def eq vals)
      with r v(4) show ?thesis by simp
    qed
  qed
qed

lemma achievementLoop_found_le:
  assumes "wf_userAchievements s" and "findUserAchievement s u' a' = Some ua"
  shows "\<exists>ua'. findUserAchievement (snd (achievementLoop s now u txs hs pf as updated)) u' a' = Some ua' \<and>
               progress ua \<le> progress ua'"
  using assms
proof (induction as arbitrary: s updated ua)
  case Nil
  then show ?case by simp
next
  case (Cons a as)
  show ?case
  proof (cases "computeProgress (requirement a) txs hs pf")
    case None
    with Cons show ?thesis by simp
  next
    case (Some prog)
    obtain r s1 where upd: "updateUserAchievementProgress s now u (a_id a) prog = (r, s1)"
      by (cases "updateUserAchievementProgress s now u (a_id a) prog")
    from update_progress_kept[OF Cons.prems(1), of now u "a_id a" prog]
    have wf1: "wf_userAchievements s1" by (simp add: upd)
    from update_found_le[OF Cons.prems, of now u "a_id a" prog] obtain ua1 where
      1: "findUserAchievement s1 u' a' = Some ua1" "progress ua \<le> progress ua1"
      by (auto simp: upd)
    show ?thesis
    proof (cases r)
      case (Inl e)
      with 1 show ?thesis by (simp add: Some upd)
    next
      case (Inr x)
      from Cons.IH[OF wf1 1(1), of "updated @ [x]"] 1(2)
      show ?thesis by (auto simp: Some upd Inr)
    qed
  qed
qed

lemma achievementLoop_reaches:
  assumes "wf_userAchievements s"
    and "list_all (\<lambda>a. getAchievement s (a_id a) \<noteq> None) as"
    and "a \<in> set as" and "computeProgress (requirement a) txs hs pf = Some prog"
  shows "\<exists>ua. findUserAchievement (snd (achievementLoop s now u txs hs pf as updated)) u (a_id a) = Some ua \<and>
              prog \<le> progress ua"
  using assms
proof (induction as arbitrary: s updated)
  case Nil
  then show ?case by simp
next
  case (Cons b as)
  show ?case
  proof (cases "computeProgress (requirement b) txs hs pf")
    case None
    with Cons.prems(3,4) have "a \<in> set as" by auto
    with Cons None show ?thesis by simp
  next
    case (Some progb)
    obtain r s1 where upd: "updateUserAchievementProgress s now u (a_id b) progb = (r, s1)"
      by (cases "updateUserAchievementProgress s now u (a_id b) progb")
    from update_progress_kept[OF Cons.prems(1), of now u "a_id b" progb]
    have wf1: "wf_userAchievements s1" by (simp add: upd)
    have ach1: "achievements s1 = achievements s"
      using updateUserAchievementProgress_achievements[of s now u "a_id b" progb]
      by (simp add: upd)
    from Cons.prems(2) have exb: "getAchievement s (a_id b) \<noteq> None" by simp
    from update_reaches[OF Cons.prems(1) exb, of now u progb] obtain x uab where
      rb: "r = Inr x" "findUserAchievement s1 u (a_id b) = Some uab" "progb \<le> progress uab"
      by (auto simp: upd)
    have step: "achievementLoop s now u txs hs pf (b # as) updated =
                  achievementLoop s1 now u txs hs pf as (updated @ [x])"
      by (simp add: Some upd rb(1))
    show ?thesis
    proof (cases "a = b")
      case True
      with Cons.prems(4) Some have "prog = progb" by simp
      with achievementLoop_found_le[OF wf1 rb(2), of now u txs hs pf as "updated @ [x]"] rb(3) True
      show ?thesis unfolding step by auto
    next
      case False
      with Cons.prems(3) have "a \<in> set as" by simp
      moreover have "list_all (\<lambda>a. getAchievement s1 (a_id a) \<noteq> None) as"
        using Cons.prems(2) by (simp add: getAchievement_def ach1)
      ultimately show ?thesis
        unfolding step using Cons.IH[OF wf1 _ _ Cons.prems(4)] by blast
    qed
  qed
qed

lemma wf_achievements_all:
  "wf_achievements s \<Longrightarrow> list_all (\<lambda>a. getAchievement s (a_id a) \<noteq> None) (getAchievements s)"
  by (force simp: wf_achievements_def getAchievements_def getAchievement_def map_values_def
      list_all_iff map_of_eq_None_iff)

lemma sell_achievements:
  "achievements (snd (sell s now u p amt price)) = achievements s"
  by (simp add: sell_def write_defs split: option.splits sum.splits prod.splits)

text \<open>
  C10. A successful sell of the whole amount of a holding leaves the holding in the store,
  with amount 0: the user has as many holdings as before, and the holding is among the
  tokens the next achievement check reads. That check computes the progress of the kinds
  \<open>different_players\<close>, \<open>nba_players\<close> and \<open>nfl_players\<close> from all these tokens, the empty
  holding included, and after it the user's record for every achievement of these kinds has
  at least that progress.
\<close>

theorem sold_out_holding_still_counts:
  assumes wf: "wf_holdings s" "wf_userAchievements s" "wf_achievements s"
    and ok: "fst (fst (sell s now u p amt price)) = 200"
    and full: "getTokenHolding s u p = Some h" "amt = amount h"
    and s1: "s1 = snd (sell s now u p amt price)"
  shows "\<exists>toks.
     getTokenHolding s1 u p = Some (h\<lparr>amount := 0\<rparr>) \<and>
     length (userHoldings s1 u) = length (userHoldings s u) \<and>
     getUserTokens s1 u = Inr toks \<and>
     h\<lparr>amount := 0\<rparr> \<in> fst ` set toks \<and>
     (\<forall>a \<in> set (getAchievements s1). \<forall>n.
        (requirement a = ''different_players'' \<and>
           n = int (card (set (map (\<lambda>x. h_playerId (fst x)) toks))) \<or>
         requirement a = ''nba_players'' \<and>
           n = int (length (filter (\<lambda>x. sport (snd x) = ''NBA'') toks)) \<or>
         requirement a = ''nfl_players'' \<and>
           n = int (length (filter (\<lambda>x. sport (snd x) = ''NFL'') toks))) \<longrightarrow>
        (\<exists>ua. findUserAchievement (snd (checkAndUpdateAchievements s1 now' u)) u (a_id a) = Some ua \<and>
              n \<le> progress ua))"
proof -
  let ?h' = "h\<lparr>amount := 0\<rparr>"
  from sell_run[OF wf(1) ok] full have
    g1: "getTokenHolding s1 u p = Some ?h'"
    and th1: "tokenHoldings s1 = map_set (h_id h) ?h' (tokenHoldings s)"
    by (auto simp: s1)
  have "userHoldings s1 u = userHoldings (s\<lparr>tokenHoldings := map_set (h_id h) ?h' (tokenHoldings s)\<rparr>) u"
    by (simp add: userHoldings_def th1)
  also have "\<dots> = map (\<lambda>x. if h_id x = h_id h then ?h' else x) (userHoldings s u)"
    by (rule userHoldings_replace[OF wf(1) full(1)]) simp
  finally have len: "length (userHoldings s1 u) = length (userHoldings s u)"
    by simp
  from sell_ok_portfolio[OF wf(1) ok] obtain toks txs pf where
    p1: "getUserTokens s1 u = Inr toks" "getUserTransactions s1 u = Inr txs"
      "getUserPortfolio s1 u = Inr pf"
    by (auto simp: s1)
  from p1(1) have toks: "map fst toks = userHoldings s1 u"
    using withPlayer_Inr[of s1 "userHoldings s1 u" toks] by (simp add: getUserTokens_def)
  from g1 have "?h' \<in> set (userHoldings s1 u)"
    by (auto simp: getTokenHolding_def userHoldings_def dest: find_in_set)
  with toks have mem: "?h' \<in> fst ` set toks"
    by (metis set_map)
  have wf1: "wf_userAchievements s1"
    using wf(2) sell_userAchievements[of s now u p amt price]
    by (simp add: wf_userAchievements_def s1)
  have "wf_achievements s1"
    using wf(3) sell_achievements[of s now u p amt price]
    by (simp add: wf_achievements_def s1)
  then have all: "list_all (\<lambda>a. getAchievement s1 (a_id a) \<noteq> None) (getAchievements s1)"
    by (rule wf_achievements_all)
  have chk: "snd (checkAndUpdateAchievements s1 now' u) =
               snd (achievementLoop s1 now' u txs toks pf (getAchievements s1) [])"
    by (simp add: checkAndUpdateAchievements_def p1 split: prod.splits sum.splits)
  have counts: "\<exists>ua. findUserAchievement (snd (checkAndUpdateAchievements s1 now' u)) u (a_id a) = Some ua \<and>
              n \<le> progress ua"
    if a: "a \<in> set (getAchievements s1)"
      and n: "requirement a = ''different_players'' \<and>
           n = int (card (set (map (\<lambda>x. h_playerId (fst x)) toks))) \<or>
         requirement a = ''nba_players'' \<and>
           n = int (length (filter (\<lambda>x. sport (snd x) = ''NBA'') toks)) \<or>
         requirement a = ''nfl_players'' \<and>
           n = int (length (filter (\<lambda>x. sport (snd x) = ''NFL'') toks))"
    for a n
  proof -
    from n have "computeProgress (requirement a) txs toks pf = Some n"
      by (auto simp: computeProgress_def)
    from achievementLoop_reaches[OF wf1 all a this, of now' u "[]"]
    show ?thesis by (simp add: chk)
  qed
  from g1 len p1(1) mem counts show ?thesis by blast
qed

theorem sold_out_holding_still_counts_witness:
  "wf_holdings ledger0 \<and> wf_userAchievements ledger0 \<and> wf_achievements ledger0 \<and>
   fst (fst (sell ledger0 7 1 1 10 2)) = 200 \<and>
   map_option amount (getTokenHolding ledger0 1 1) = Some 10 \<and>
   map_option amount (getTokenHolding ledger2 1 1) = Some 0 \<and>
   length (userHoldings ledger2 1) = 2 \<and>
   length (filter (\<lambda>h. 0 < amount h) (userHoldings ledger2 1)) = 1 \<and>
   (\<exists>ua. findUserAchievement (snd (checkAndUpdateAchievements ledger2 8 1)) 1 8 = Some ua \<and>
         2 \<le> progress ua) \<and>
   (\<exists>ua. findUserAchievement (snd (checkAndUpdateAchievements ledger2 8 1)) 1 9 = Some ua \<and>
         2 \<le> progress ua)"
proof -
  have wf: "wf_holdings ledger0" "wf_userAchievements ledger0" "wf_achievements ledger0"
    by (simp_all add: wf_holdings_def wf_userAchievements_def wf_achievements_def keyed_def
        ledger0_sel holdings0_def achievements0_def)
  have ok: "fst (fst (sell ledger0 7 1 1 10 2)) = 200"
    by (simp add: trade_defs ledger0_sel holdings0_def players0_def)
  have g: "getTokenHolding ledger0 1 1 = Some (snd (hd holdings0))"
    and am: "10 = amount (snd (hd holdings0))"
    by (simp_all add: getTokenHolding_def map_values_def ledger0_sel holdings0_def)
  have uh0: "length (userHoldings ledger0 1) = 2"
    by (simp add: userHoldings_def map_values_def ledger0_sel holdings0_def)
  have pos: "length (filter (\<lambda>h. 0 < amount h) (userHoldings ledger2 1)) = 1"
    by (simp add: ledger2_def trade_defs ledger0_sel holdings0_def players0_def)
  have toks2: "getUserTokens ledger2 1 =
      Inr [(snd (hd holdings0)\<lparr>amount := 0\<rparr>, snd (hd players0)),
           (snd (holdings0 ! 1), snd (players0 ! 2))]"
    by (simp add: ledger2_def trade_defs ledger0_sel holdings0_def players0_def)
  have ach2: "getAchievements ledger2 = map snd achievements0"
    using sell_achievements[of ledger0 7 1 1 10 2]
    by (simp add: ledger2_def getAchievements_def map_values_def ledger0_sel)
  have a8: "snd (achievements0 ! 7) \<in> set (getAchievements ledger2)"
    "requirement (snd (achievements0 ! 7)) = ''different_players''"
    "a_id (snd (achievements0 ! 7)) = 8"
    and a9: "snd (achievements0 ! 8) \<in> set (getAchievements ledger2)"
    "requirement (snd (achievements0 ! 8)) = ''nba_players''"
    "a_id (snd (achievements0 ! 8)) = 9"
    by (simp_all add: ach2 achievements0_def)
  from sold_out_holding_still_counts[OF wf ok g am ledger2_def, of 8] obtain toks where
    t: "getTokenHolding ledger2 1 1 = Some (snd (hd holdings0)\<lparr>amount := 0\<rparr>)"
      "length (userHoldings ledger2 1) = length (userHoldings ledger0 1)"
      "getUserTokens ledger2 1 = Inr toks"
    and cnt: "\<And>a n.
        a \<in> set (getAchievements ledger2) \<Longrightarrow>
        (requirement a = ''different_players'' \<and>
           n = int (card (set (map (\<lambda>x. h_playerId (fst x)) toks))) \<or>
         requirement a = ''nba_players'' \<and>
           n = int (length (filter (\<lambda>x. sport (snd x) = ''NBA'') toks)) \<or>
         requirement a = ''nfl_players'' \<and>
           n = int (length (filter (\<lambda>x. sport (snd x) = ''NFL'') toks))) \<Longrightarrow>
        \<exists>ua. findUserAchievement (snd (checkAndUpdateAchievements ledger2 8 1)) 1 (a_id a) = Some ua \<and>
              n \<le> progress ua"
    by blast
  from t(3) toks2 have toks: "toks =
      [(snd (hd holdings0)\<lparr>amount := 0\<rparr>, snd (hd players0)),
       (snd (holdings0 ! 1), snd (players0 ! 2))]"
    by simp
  have n8: "int (card (set (map (\<lambda>x. h_playerId (fst x)) toks))) = 2"
    and n9: "int (length (filter (\<lambda>x. sport (snd x) = ''NBA'') toks)) = 2"
    by (simp_all add: toks holdings0_def players0_def)
  from cnt[OF a8(1), of 2] a8(2) n8
  have c8: "\<exists>ua. findUserAchievement (snd (checkAndUpdateAchievements ledger2 8 1)) 1 8 = Some ua \<and>
         2 \<le> progress ua"
    by (simp add: a8(3))
  from cnt[OF a9(1), of 2] a9(2) n9
  have c9: "\<exists>ua. findUserAchievement (snd (checkAndUpdateAchievements ledger2 8 1)) 1 9 = Some ua \<and>
         2 \<le> progress ua"
    by (simp add: a9(3))
  have f5: "map_option amount (getTokenHolding ledger0 1 1) = Some 10"
    using am by (simp add: g)
  have f6: "map_option amount (getTokenHolding ledger2 1 1) = Some 0"
    by (simp add: t(1))
  have f7: "length (userHoldings ledger2 1) = 2"
    by (simp add: t(2) uh0)
  from wf ok f5 f6 f7 pos c8 c9 show ?thesis
    by blast
qed

end
